theory Spec2Isabelle
  imports Main "HOL-Library.Multiset" "HOL-Library.Sublist"
    "HOL-Library.Char_ord" "HOL-Library.List_Lexorder"
begin

section \<open>The tech tree visualizer: data model\<close>

text \<open>
  The program is \<^verbatim>\<open>prototypes/tech_tree_visualizer.py\<close>. Text is a \<^typ>\<open>string\<close>, read as
  the UTF-8 bytes of the Python \<^verbatim>\<open>str\<close>: every character the program itself tests for
  (tab, comma, the five characters \<^verbatim>\<open>html.escape\<close> replaces, the scheme prefixes) is ASCII,
  so byte-wise and code-point-wise processing agree on them, and byte order is code-point
  order for \<^verbatim>\<open>sorted\<close>.

  A part is the dict built at lines 86 to 91, a tech node the dict built at lines 50 to 55.
  The field \<^verbatim>\<open>size\<close> is called \<open>size_field\<close> here, the name \<open>size\<close> being taken in HOL.
\<close>

record part =
  category :: string
  name :: string
  tech_node :: "string option"
  size_field :: string

record node_data =
  tier :: int
  description :: string
  prerequisites :: "string list"
  parts :: "part list"

text \<open>
  The exceptions the program can raise. \<open>ValueError\<close> carries the text \<^verbatim>\<open>int\<close> rejected,
  \<open>KeyError\<close> the missing column, \<open>NameError\<close> the unbound name. \<open>FileNotFoundError\<close> is the
  one exception the program catches (lines 43 and 80); \<open>OtherError\<close> stands for every other
  failure of a collaborator (transport, operating system, renderer).
\<close>

datatype error =
    KeyError string
  | ValueError string
  | NameError string
  | FileNotFoundError
  | OtherError string

subsection \<open>Python dicts, in insertion order\<close>

text \<open>
  A Python dict iterates in insertion order, and \<^verbatim>\<open>create_tech_tree_graph\<close> iterates over
  \<^verbatim>\<open>tech_nodes.items()\<close>, so a dict is an association list. \<open>dict_contains\<close> is
  \<^verbatim>\<open>k in d\<close>; \<open>dict_set\<close> is \<^verbatim>\<open>d[k] = v\<close>, which overwrites the value of a key already
  there and keeps its place, and appends a new key; \<open>dict_modify\<close> is a mutation of the
  object stored under a key that is there, such as \<^verbatim>\<open>d[k]['parts'].append(p)\<close>.
\<close>

type_synonym ('k, 'v) dict = "('k \<times> 'v) list"

definition dict_contains :: "'k \<Rightarrow> ('k, 'v) dict \<Rightarrow> bool" where
  "dict_contains k d = (k \<in> set (map fst d))"

fun dict_set :: "'k \<Rightarrow> 'v \<Rightarrow> ('k, 'v) dict \<Rightarrow> ('k, 'v) dict" where
  "dict_set k v [] = [(k, v)]"
| "dict_set k v ((k', v') # d) =
     (if k' = k then (k, v) # d else (k', v') # dict_set k v d)"

fun dict_modify :: "'k \<Rightarrow> ('v \<Rightarrow> 'v) \<Rightarrow> ('k, 'v) dict \<Rightarrow> ('k, 'v) dict" where
  "dict_modify k f [] = []"
| "dict_modify k f ((k', v') # d) =
     (if k' = k then (k', f v') # d else (k', v') # dict_modify k f d)"

definition dict_get :: "('k, 'v) dict \<Rightarrow> 'k \<Rightarrow> 'v option" where
  "dict_get d k = map_of d k"

type_synonym tech_nodes = "(string, node_data) dict"

text \<open>A dict holds each key once; this is the invariant of the representation.\<close>

definition is_dict :: "('k, 'v) dict \<Rightarrow> bool" where
  "is_dict d = distinct (map fst d)"

section \<open>Text operations of the Python library\<close>

text \<open>
  \<^verbatim>\<open>s.startswith(p)\<close>, \<^verbatim>\<open>s.split(',')\<close>, \<^verbatim>\<open>s.strip()\<close>, \<^verbatim>\<open>html.escape(s)\<close>,
  \<^verbatim>\<open>sep.join(xs)\<close> and \<^verbatim>\<open>str(n)\<close> for a length.
\<close>

definition startswith :: "string \<Rightarrow> string \<Rightarrow> bool" where
  "startswith s p = prefix p s"

text \<open>
  \<^verbatim>\<open>s.split(c)\<close> with a one-character separator: one piece more than there are
  separators, the empty string giving one empty piece.
\<close>

fun split_on :: "char \<Rightarrow> string \<Rightarrow> string list" where
  "split_on c [] = [[]]"
| "split_on c (x # xs) =
     (if x = c then [] # split_on c xs
      else (case split_on c xs of [] \<Rightarrow> [[x]] | p # ps \<Rightarrow> (x # p) # ps))"

text \<open>
  \<^verbatim>\<open>str.strip()\<close> removes the characters for which \<^verbatim>\<open>str.isspace\<close> holds from both ends:
  the code points 9 to 13, 28 to 32, U+0085, U+00A0, U+1680, U+2000 to U+200A, U+2028,
  U+2029, U+202F, U+205F and U+3000, listed here by their UTF-8 encodings.
\<close>

definition py_whitespace :: "string list" where
  "py_whitespace =
     [[CHR 0x09], [CHR 0x0A], [CHR 0x0B], [CHR 0x0C], [CHR 0x0D],
      [CHR 0x1C], [CHR 0x1D], [CHR 0x1E], [CHR 0x1F], [CHR 0x20],
      [CHR 0xC2, CHR 0x85], [CHR 0xC2, CHR 0xA0],
      [CHR 0xE1, CHR 0x9A, CHR 0x80],
      [CHR 0xE2, CHR 0x80, CHR 0x80], [CHR 0xE2, CHR 0x80, CHR 0x81],
      [CHR 0xE2, CHR 0x80, CHR 0x82], [CHR 0xE2, CHR 0x80, CHR 0x83],
      [CHR 0xE2, CHR 0x80, CHR 0x84], [CHR 0xE2, CHR 0x80, CHR 0x85],
      [CHR 0xE2, CHR 0x80, CHR 0x86], [CHR 0xE2, CHR 0x80, CHR 0x87],
      [CHR 0xE2, CHR 0x80, CHR 0x88], [CHR 0xE2, CHR 0x80, CHR 0x89],
      [CHR 0xE2, CHR 0x80, CHR 0x8A],
      [CHR 0xE2, CHR 0x80, CHR 0xA8], [CHR 0xE2, CHR 0x80, CHR 0xA9],
      [CHR 0xE2, CHR 0x80, CHR 0xAF], [CHR 0xE2, CHR 0x81, CHR 0x9F],
      [CHR 0xE3, CHR 0x80, CHR 0x80]]"

function strip_leading :: "string list \<Rightarrow> string \<Rightarrow> string" where
  "strip_leading ws s =
     (case find (\<lambda>w. w \<noteq> [] \<and> prefix w s) ws of
        None \<Rightarrow> s
      | Some w \<Rightarrow> strip_leading ws (drop (length w) s))"
  by pat_completeness auto
termination
proof (relation "measure (\<lambda>(ws, s). length s)")
  show "wf (measure (\<lambda>(ws, s). length s))" by simp
next
  fix ws :: "string list" and s w :: string
  assume "find (\<lambda>w. w \<noteq> [] \<and> prefix w s) ws = Some w"
  then have "w \<noteq> []" and "prefix w s"
    by (auto simp: find_Some_iff)
  then have "s \<noteq> []" by auto
  with \<open>w \<noteq> []\<close> show "((ws, drop (length w) s), (ws, s)) \<in> measure (\<lambda>(ws, s). length s)"
    by simp
qed

declare strip_leading.simps [simp del]

definition lstrip :: "string \<Rightarrow> string" where
  "lstrip s = strip_leading py_whitespace s"

definition rstrip :: "string \<Rightarrow> string" where
  "rstrip s = rev (strip_leading (map rev py_whitespace) (rev s))"

definition strip :: "string \<Rightarrow> string" where
  "strip s = rstrip (lstrip s)"

text \<open>
  \<^verbatim>\<open>html.escape(s)\<close> with its default \<^verbatim>\<open>quote=True\<close>: the ampersand is replaced first, so
  the sequence of \<^verbatim>\<open>replace\<close> calls is a character-wise substitution.
\<close>

definition escape_char :: "char \<Rightarrow> string" where
  "escape_char c =
     (if c = CHR ''&'' then ''&amp;''
      else if c = CHR ''<'' then ''&lt;''
      else if c = CHR ''>'' then ''&gt;''
      else if c = CHR 0x22 then ''&quot;''
      else if c = CHR 0x27 then ''&#x27;''
      else [c])"

definition html_escape :: "string \<Rightarrow> string" where
  "html_escape s = concat (map escape_char s)"

fun join :: "string \<Rightarrow> string list \<Rightarrow> string" where
  "join sep [] = []"
| "join sep [x] = x"
| "join sep (x # y # ys) = x @ sep @ join sep (y # ys)"

fun str_nat :: "nat \<Rightarrow> string" where
  "str_nat n =
     (if n < 10 then [char_of (48 + n)]
      else str_nat (n div 10) @ [char_of (48 + n mod 10)])"

declare str_nat.simps [simp del]

text \<open>The bullet of the labels, U+2022, as its UTF-8 bytes.\<close>

definition bullet :: string where
  "bullet = [CHR 0xE2, CHR 0x80, CHR 0xA2]"

section \<open>External collaborators\<close>

text \<open>
  The graph description handed to the renderer: what \<^verbatim>\<open>Digraph\<close> accumulates through
  \<^verbatim>\<open>attr\<close>, \<^verbatim>\<open>node\<close>, \<^verbatim>\<open>edge\<close> and \<^verbatim>\<open>subgraph\<close>, in call order.
\<close>

type_synonym attrs = "(string \<times> string) list"

record gv_node =
  node_id :: string
  node_label :: string
  node_attrs :: attrs

record subgraph =
  sg_name :: string
  sg_attrs :: attrs
  sg_nodes :: "gv_node list"

record digraph =
  g_comment :: string
  g_format :: string
  g_attrs :: "(string \<times> attrs) list"
  g_nodes :: "gv_node list"
  g_edges :: "(string \<times> string) list"
  g_subgraphs :: "subgraph list"

text \<open>
  A row of \<^verbatim>\<open>csv.DictReader\<close> maps the column names of the header to the cells of one
  line; \<^verbatim>\<open>row[c]\<close> for a column the header lacks raises \<^verbatim>\<open>KeyError\<close>. The cells of a
  rectangular table are strings, and that is what a row holds here.

  The files the run leaves behind are pairs of a name and contents; the standard output
  is the list of printed lines.
\<close>

type_synonym row = "string \<rightharpoonup> string"

type_synonym files = "(string \<times> string) list"

text \<open>
  What the program calls and does not define:
  \<^item> \<open>urlopen_read\<close> is \<^verbatim>\<open>urllib.request.urlopen(url).read().decode('utf-8')\<close>;
  \<^item> \<open>open_read\<close> is \<^verbatim>\<open>open(path, 'r', encoding='utf-8')\<close> and the reading of the file: the
    contents, or \<open>FileNotFoundError\<close>, or another failure;
  \<^item> \<open>dict_reader\<close> is \<^verbatim>\<open>csv.DictReader(..., delimiter='\t')\<close>, the rows of a text;
  \<^item> \<open>py_int\<close> is the built-in \<^verbatim>\<open>int\<close> on a string, \<open>None\<close> where it raises
    \<^verbatim>\<open>ValueError\<close>;
  \<^item> \<open>gv_render\<close> is \<^verbatim>\<open>graph.render(name, cleanup=True)\<close>, which changes the files and may
    fail; \<open>gv_source\<close> is \<^verbatim>\<open>graph.source\<close>.
\<close>

record env =
  urlopen_read :: "string \<Rightarrow> error + string"
  open_read :: "string \<Rightarrow> error + string"
  dict_reader :: "string \<Rightarrow> row list"
  py_int :: "string \<Rightarrow> int option"
  gv_render :: "digraph \<Rightarrow> string \<Rightarrow> files \<Rightarrow> files \<times> error option"
  gv_source :: "digraph \<Rightarrow> string"

definition BASE_URL :: string where
  "BASE_URL = ''https://docs.google.com/spreadsheets/d/e/2PACX-1vRA2AQx4X9PZyyoU5mMV18MdB-OI50dx-AdShkBqMKqSaa8dFhb3USE5vtUF1JlPBjkTZFouuyF3Quj/pub?output=tsv''"

definition PARTS_LIST_URL :: string where
  "PARTS_LIST_URL = BASE_URL @ ''&gid=22599298''"

definition TECH_TREE_URL :: string where
  "TECH_TREE_URL = BASE_URL @ ''&gid=1681045610''"

definition fetch_tsv_from_url :: "env \<Rightarrow> string \<Rightarrow> error + string" where
  "fetch_tsv_from_url E url = urlopen_read E url"

section \<open>Table Loader: choosing the reader (lines 34 to 45 and 71 to 81)\<close>

text \<open>
  \<^verbatim>\<open>
  if data_source.startswith('http://') or data_source.startswith('https://'):
      tsv_data = fetch_tsv_from_url(data_source)
      reader = csv.DictReader(StringIO(tsv_data), delimiter='\t')
  else:
      try:
          f = open(data_source, 'r', encoding='utf-8')
          reader = csv.DictReader(f, delimiter='\t')
      except FileNotFoundError:
          reader = csv.DictReader(StringIO(data_source), delimiter='\t')
          f = None
  \<close>
  The two readers of the program open with the same lines; \<open>open_reader\<close> is those
  lines, and yields the rows the reader will produce. Only \<^verbatim>\<open>FileNotFoundError\<close> is
  caught. The file handle closed in the \<^verbatim>\<open>finally\<close> clause is not part of the model.
\<close>

definition open_reader :: "env \<Rightarrow> string \<Rightarrow> error + row list" where
  "open_reader E data_source =
     (if startswith data_source ''http://'' \<or> startswith data_source ''https://''
      then (case fetch_tsv_from_url E data_source of
              Inl e \<Rightarrow> Inl e
            | Inr tsv_data \<Rightarrow> Inr (dict_reader E tsv_data))
      else (case open_read E data_source of
              Inr contents \<Rightarrow> Inr (dict_reader E contents)
            | Inl e \<Rightarrow>
                if e = FileNotFoundError then Inr (dict_reader E data_source)
                else Inl e))"

section \<open>Tech Node Builder: \<^verbatim>\<open>read_tech_tree\<close> (lines 26 to 60)\<close>

text \<open>
  \<^verbatim>\<open>
  for row in reader:
      node_name = row['Node']
      tech_nodes[node_name] = {
          'tier': int(row['Tier']),
          'description': row['Description'],
          'prerequisites': [p.strip() for p in row['Prerequisites'].split(',') if p.strip()],
          'parts': []
      }
  \<close>
  The fields are evaluated in the order written, so the first failure of a row is the one
  raised.
\<close>

definition parse_prerequisites :: "string \<Rightarrow> string list" where
  "parse_prerequisites s = map strip (filter (\<lambda>p. strip p \<noteq> []) (split_on CHR '','' s))"

definition tech_row :: "env \<Rightarrow> row \<Rightarrow> error + (string \<times> node_data)" where
  "tech_row E row =
     (case row ''Node'' of
        None \<Rightarrow> Inl (KeyError ''Node'')
      | Some node_name \<Rightarrow>
     (case row ''Tier'' of
        None \<Rightarrow> Inl (KeyError ''Tier'')
      | Some t \<Rightarrow>
     (case py_int E t of
        None \<Rightarrow> Inl (ValueError t)
      | Some ti \<Rightarrow>
     (case row ''Description'' of
        None \<Rightarrow> Inl (KeyError ''Description'')
      | Some d \<Rightarrow>
     (case row ''Prerequisites'' of
        None \<Rightarrow> Inl (KeyError ''Prerequisites'')
      | Some pr \<Rightarrow>
          Inr (node_name,
               \<lparr>tier = ti, description = d,
                prerequisites = parse_prerequisites pr, parts = []\<rparr>))))))"

fun tech_rows :: "env \<Rightarrow> row list \<Rightarrow> tech_nodes \<Rightarrow> error + tech_nodes" where
  "tech_rows E [] tn = Inr tn"
| "tech_rows E (row # rows) tn =
     (case tech_row E row of
        Inl e \<Rightarrow> Inl e
      | Inr (node_name, nd) \<Rightarrow> tech_rows E rows (dict_set node_name nd tn))"

definition read_tech_tree :: "env \<Rightarrow> string \<Rightarrow> error + tech_nodes" where
  "read_tech_tree E data_source =
     (case open_reader E data_source of
        Inl e \<Rightarrow> Inl e
      | Inr rows \<Rightarrow> tech_rows E rows [])"

text \<open>
  What one accepted row does to the mapping, \<^verbatim>\<open>tech_nodes[node_name] = {...}\<close>; a rejected
  row ends the loop, and is given no effect here.
\<close>

definition store_row :: "env \<Rightarrow> row \<Rightarrow> tech_nodes \<Rightarrow> tech_nodes" where
  "store_row E r tn =
     (case tech_row E r of Inl e \<Rightarrow> tn | Inr (node_name, nd) \<Rightarrow> dict_set node_name nd tn)"

section \<open>Parts catalog: \<^verbatim>\<open>read_parts_catalog\<close> (lines 63 to 96)\<close>

text \<open>
  \<^verbatim>\<open>
  for row in reader:
      parts.append({
          'category': row['Category'],
          'name': row['Name'],
          'tech_node': row['Tech Node'].strip() if row['Tech Node'] else None,
          'size': row['Size']
      })
  \<close>
  The condition of the conditional expression tests the cell as read, before stripping.
\<close>

definition parts_row :: "row \<Rightarrow> error + part" where
  "parts_row row =
     (case row ''Category'' of
        None \<Rightarrow> Inl (KeyError ''Category'')
      | Some c \<Rightarrow>
     (case row ''Name'' of
        None \<Rightarrow> Inl (KeyError ''Name'')
      | Some n \<Rightarrow>
     (case row ''Tech Node'' of
        None \<Rightarrow> Inl (KeyError ''Tech Node'')
      | Some tn \<Rightarrow>
     (case row ''Size'' of
        None \<Rightarrow> Inl (KeyError ''Size'')
      | Some sz \<Rightarrow>
          Inr \<lparr>category = c, name = n,
               tech_node = (if tn \<noteq> [] then Some (strip tn) else None),
               size_field = sz\<rparr>))))"

fun parts_rows :: "row list \<Rightarrow> part list \<Rightarrow> error + part list" where
  "parts_rows [] ps = Inr ps"
| "parts_rows (row # rows) ps =
     (case parts_row row of
        Inl e \<Rightarrow> Inl e
      | Inr p \<Rightarrow> parts_rows rows (ps @ [p]))"

definition read_parts_catalog :: "env \<Rightarrow> string \<Rightarrow> error + part list" where
  "read_parts_catalog E data_source =
     (case open_reader E data_source of
        Inl e \<Rightarrow> Inl e
      | Inr rows \<Rightarrow> parts_rows rows [])"

section \<open>Parts Assigner: \<^verbatim>\<open>assign_parts_to_nodes\<close> (lines 99 to 109)\<close>

text \<open>
  \<^verbatim>\<open>
  def assign_parts_to_nodes(tech_nodes, parts):
      unassigned_parts = []
      for part in parts:
          if part['tech_node'] and part['tech_node'] in tech_nodes:
              tech_nodes[part['tech_node']]['parts'].append(part)
          else:
              unassigned_parts.append(part)
      return unassigned_parts
  \<close>
  The test \<^verbatim>\<open>part['tech_node'] and ...\<close> is Python truthiness: \<^verbatim>\<open>None\<close> and the empty
  string are both false. The function mutates \<^verbatim>\<open>tech_nodes\<close> in place and returns the
  unassigned list; the model returns the pair of the mutated dict and that list. Each node
  owns its \<^verbatim>\<open>parts\<close> list (line 54 makes a fresh list per node), so no two entries alias.
\<close>

definition truthy :: "string option \<Rightarrow> bool" where
  "truthy v = (case v of None \<Rightarrow> False | Some s \<Rightarrow> s \<noteq> [])"

definition append_part :: "part \<Rightarrow> node_data \<Rightarrow> node_data" where
  "append_part p nd = nd\<lparr>parts := parts nd @ [p]\<rparr>"

definition assign_step :: "tech_nodes \<times> part list \<Rightarrow> part \<Rightarrow> tech_nodes \<times> part list" where
  "assign_step st p =
     (case st of (tn, unassigned_parts) \<Rightarrow>
        if truthy (tech_node p) \<and> dict_contains (the (tech_node p)) tn
        then (dict_modify (the (tech_node p)) (append_part p) tn, unassigned_parts)
        else (tn, unassigned_parts @ [p]))"

definition assign_parts_to_nodes :: "tech_nodes \<Rightarrow> part list \<Rightarrow> tech_nodes \<times> part list" where
  "assign_parts_to_nodes tn ps = foldl assign_step (tn, []) ps"

text \<open>
  The destination of one part, read off the test of line 104: \<open>routed tn p\<close> is the key
  whose list receives \<open>p\<close>, or \<open>None\<close> when \<open>p\<close> goes to the unassigned list.
\<close>

definition routed :: "tech_nodes \<Rightarrow> part \<Rightarrow> string option" where
  "routed tn p =
     (if truthy (tech_node p) \<and> dict_contains (the (tech_node p)) tn
      then tech_node p else None)"

definition all_node_parts :: "tech_nodes \<Rightarrow> part list" where
  "all_node_parts tn = concat (map (\<lambda>(k, nd). parts nd) tn)"

text \<open>The state after the loop in closed form, used to state what the loop computes.\<close>

definition parts_for :: "tech_nodes \<Rightarrow> string \<Rightarrow> part list \<Rightarrow> part list" where
  "parts_for tn k ps = filter (\<lambda>p. routed tn p = Some k) ps"

definition with_parts :: "tech_nodes \<Rightarrow> part list \<Rightarrow> tech_nodes" where
  "with_parts tn ps = map (\<lambda>(k, nd). (k, nd\<lparr>parts := parts nd @ parts_for tn k ps\<rparr>)) tn"

text \<open>The nodes as \<^verbatim>\<open>read_tech_tree\<close> returns them: no part assigned yet.\<close>

definition no_parts_yet :: "tech_nodes \<Rightarrow> bool" where
  "no_parts_yet tn = list_all (\<lambda>(k, nd). parts nd = []) tn"

section \<open>Graph model: \<^verbatim>\<open>create_tech_tree_graph\<close> (lines 112 to 170)\<close>

definition new_digraph :: digraph where
  "new_digraph =
     \<lparr>g_comment = ''Tech Tree'', g_format = ''png'',
      g_attrs =
        [(''graph'', [(''rankdir'', ''TB''), (''ranksep'', ''1.0''), (''nodesep'', ''0.5'')]),
         (''node'', [(''shape'', ''box''), (''style'', ''rounded,filled''),
                     (''fillcolor'', ''lightblue''), (''fontname'', ''Arial'')]),
         (''edge'', [(''color'', ''darkblue''), (''arrowsize'', ''0.8'')])],
      g_nodes = [], g_edges = [], g_subgraphs = []\<rparr>"

text \<open>
  The label of a tech node, lines 122 to 134:
  \<^verbatim>\<open>
  label = f'<B>{html.escape(node_name)}</B>'
  if node_data['parts']:
      label += '<BR/><FONT POINT-SIZE="9">'
      for part in node_data['parts']:
          part_name = html.escape(part["name"])
          part_size = html.escape(part["size"]) if part["size"] else ""
          label += f'<BR/>  (bullet) {part_name}'
          if part_size:
              label += f" ({part_size})"
      label += '</FONT>'
  label = f'<{label}>'
  \<close>
\<close>

definition node_part_label :: "part \<Rightarrow> string" where
  "node_part_label part =
     (let part_name = html_escape (name part);
          part_size = (if size_field part \<noteq> [] then html_escape (size_field part) else [])
      in ''<BR/>  '' @ bullet @ '' '' @ part_name @
         (if part_size \<noteq> [] then '' ('' @ part_size @ '')'' else []))"

definition node_label :: "string \<Rightarrow> node_data \<Rightarrow> string" where
  \<open>node_label node_name node_data =
     (let label = ''<B>'' @ html_escape node_name @ ''</B>'';
          label = (if parts node_data \<noteq> []
                   then label @ ''<BR/><FONT POINT-SIZE="9">'' @
                        concat (map node_part_label (parts node_data)) @ ''</FONT>''
                   else label)
      in ''<'' @ label @ ''>'')\<close>

definition add_node :: "gv_node \<Rightarrow> digraph \<Rightarrow> digraph" where
  "add_node n dot = dot\<lparr>g_nodes := g_nodes dot @ [n]\<rparr>"

definition add_edge :: "string \<times> string \<Rightarrow> digraph \<Rightarrow> digraph" where
  "add_edge e dot = dot\<lparr>g_edges := g_edges dot @ [e]\<rparr>"

text \<open>The first loop, lines 120 to 136: one \<^verbatim>\<open>dot.node\<close> per item of the dict.\<close>

definition add_tech_nodes :: "tech_nodes \<Rightarrow> digraph \<Rightarrow> digraph" where
  "add_tech_nodes tn dot =
     fold (\<lambda>(node_name, node_data).
             add_node \<lparr>node_id = node_name, node_label = node_label node_name node_data,
                       node_attrs = [(''fillcolor'', ''lightblue'')]\<rparr>) tn dot"

text \<open>
  The second loop, lines 139 to 142:
  \<^verbatim>\<open>
  for node_name, node_data in tech_nodes.items():
      for prereq in node_data['prerequisites']:
          if prereq in tech_nodes:
              dot.edge(prereq, node_name)
  \<close>
\<close>

definition add_prerequisite_edges :: "tech_nodes \<Rightarrow> digraph \<Rightarrow> digraph" where
  "add_prerequisite_edges tn dot =
     fold (\<lambda>(node_name, node_data).
             fold (\<lambda>prereq d.
                     if dict_contains prereq tn then add_edge (prereq, node_name) d else d)
                  (prerequisites node_data)) tn dot"

text \<open>
  The cluster of the unassigned parts, lines 145 to 168. The parts are grouped by category:
  \<^verbatim>\<open>
  by_category = {}
  for part in unassigned_parts:
      cat = part['category']
      if cat not in by_category:
          by_category[cat] = []
      by_category[cat].append(part)
  \<close>
\<close>

definition group_step :: "part \<Rightarrow> (string, part list) dict \<Rightarrow> (string, part list) dict" where
  "group_step part by_category =
     (let cat = category part;
          by_category = (if \<not> dict_contains cat by_category
                         then dict_set cat [] by_category else by_category)
      in dict_modify cat (\<lambda>l. l @ [part]) by_category)"

definition group_by_category :: "part list \<Rightarrow> (string, part list) dict" where
  "group_by_category unassigned_parts = fold group_step unassigned_parts []"

text \<open>
  Then the label is built, one block per category in sorted order:
  \<^verbatim>\<open>
  label_parts = []
  for category in sorted(by_category.keys()):
      label_parts.append(f'<B>{html.escape(category)}:</B>')
      for part in by_category[category]:
          label = f'  (bullet) {html.escape(part["name"])}{size_str}'
          if part['size'].trim():
              label += f" ({html.escape(part['size'])})"
          label_parts.append(label)
  \<close>
  Line 161 reads the name \<^verbatim>\<open>size_str\<close>. Nothing binds it: it is no local of the function,
  no name of the module and no built-in. The f-string evaluates \<^verbatim>\<open>html.escape(part["name"])\<close>,
  which succeeds on a string, and then raises \<^verbatim>\<open>NameError\<close>. Line 162, which would call
  the method \<^verbatim>\<open>trim\<close> that \<^verbatim>\<open>str\<close> does not have, is never reached.
\<close>

definition unassigned_part_label :: "part \<Rightarrow> error + string" where
  "unassigned_part_label part = Inl (NameError ''size_str'')"

fun category_block :: "part list \<Rightarrow> string list \<Rightarrow> error + string list" where
  "category_block [] label_parts = Inr label_parts"
| "category_block (part # ps) label_parts =
     (case unassigned_part_label part of
        Inl e \<Rightarrow> Inl e
      | Inr label \<Rightarrow> category_block ps (label_parts @ [label]))"

fun category_blocks ::
  "string list \<Rightarrow> (string, part list) dict \<Rightarrow> string list \<Rightarrow> error + string list" where
  "category_blocks [] by_category label_parts = Inr label_parts"
| "category_blocks (cat # cats) by_category label_parts =
     (case dict_get by_category cat of
        None \<Rightarrow> Inl (KeyError cat)
      | Some ps \<Rightarrow>
          (case category_block ps (label_parts @ [''<B>'' @ html_escape cat @ '':</B>'']) of
             Inl e \<Rightarrow> Inl e
           | Inr label_parts' \<Rightarrow> category_blocks cats by_category label_parts'))"

definition unassigned_cluster :: "part list \<Rightarrow> error + subgraph" where
  \<open>unassigned_cluster unassigned_parts =
     (let by_category = group_by_category unassigned_parts
      in case category_blocks (sort (map fst by_category)) by_category [] of
           Inl e \<Rightarrow> Inl e
         | Inr label_parts \<Rightarrow>
             (let label = ''<FONT POINT-SIZE="10">'' @ join ''<BR/>'' label_parts @ ''</FONT>'';
                  label = ''<'' @ label @ ''>''
              in Inr \<lparr>sg_name = ''cluster_unassigned'',
                      sg_attrs = [(''label'', ''Unassigned Parts''), (''style'', ''filled''),
                                  (''fillcolor'', ''lightyellow'')],
                      sg_nodes = [\<lparr>node_id = ''unassigned'', node_label = label,
                                   node_attrs = [(''shape'', ''box''),
                                                 (''fillcolor'', ''lightyellow'')]\<rparr>]\<rparr>))\<close>

text \<open>
  The whole function. An exception leaves it without a value: the graph built so far is
  local and lost.
\<close>

definition create_tech_tree_graph :: "tech_nodes \<Rightarrow> part list \<Rightarrow> error + digraph" where
  "create_tech_tree_graph tn unassigned_parts =
     (let dot = add_tech_nodes tn new_digraph;
          dot = add_prerequisite_edges tn dot
      in if unassigned_parts \<noteq> []
         then (case unassigned_cluster unassigned_parts of
                 Inl e \<Rightarrow> Inl e
               | Inr c \<Rightarrow> Inr (dot\<lparr>g_subgraphs := g_subgraphs dot @ [c]\<rparr>))
         else Inr dot)"

section \<open>The run: \<^verbatim>\<open>main\<close> (lines 173 to 198)\<close>

text \<open>
  The run prints progress lines and writes two files, \<^verbatim>\<open>tech_tree.png\<close> through the
  renderer and \<^verbatim>\<open>tech_tree.dot\<close> itself. The result is the output so far and the
  exception that ended the run, if one did.
\<close>

record run_output =
  stdout :: "string list"
  written :: files

definition print_line :: "string \<Rightarrow> run_output \<Rightarrow> run_output" where
  "print_line line out = out\<lparr>stdout := stdout out @ [line]\<rparr>"

definition main :: "env \<Rightarrow> run_output \<times> error option" where
  "main E =
     (let out = print_line ''Fetching tech tree from Google Sheets...'' \<lparr>stdout = [], written = []\<rparr>
      in case read_tech_tree E TECH_TREE_URL of
           Inl e \<Rightarrow> (out, Some e)
         | Inr tech_nodes0 \<Rightarrow>
     (let out = print_line ''Fetching parts catalog from Google Sheets...'' out
      in case read_parts_catalog E PARTS_LIST_URL of
           Inl e \<Rightarrow> (out, Some e)
         | Inr ps \<Rightarrow>
     (let out = print_line ''Assigning parts to tech nodes...'' out;
          (tech_nodes, unassigned_parts) = assign_parts_to_nodes tech_nodes0 ps;
          out = print_line (''Found '' @ str_nat (length tech_nodes) @ '' tech nodes and '' @
                       str_nat (length ps) @ '' parts'') out;
          out = print_line (str_nat (length unassigned_parts) @ '' parts are unassigned'') out;
          out = print_line ''Generating visualization...'' out
      in case create_tech_tree_graph tech_nodes unassigned_parts of
           Inl e \<Rightarrow> (out, Some e)
         | Inr graph \<Rightarrow>
     (case gv_render E graph ''tech_tree'' (written out) of
        (fs, Some e) \<Rightarrow> (out\<lparr>written := fs\<rparr>, Some e)
      | (fs, None) \<Rightarrow>
     (let out = print_line ''Graph saved as tech_tree.png'' (out\<lparr>written := fs\<rparr>);
          out = out\<lparr>written := written out @ [(''tech_tree.dot'', gv_source E graph)]\<rparr>;
          out = print_line ''Graph source saved as tech_tree.dot'' out
      in (out, None))))))"

section \<open>The specification's wording, and a concrete instance\<close>

text \<open>
  The specification's wording of the prerequisites (section 4.2): split on commas, trim
  each piece, discard the pieces that are empty.
\<close>

definition spec_prerequisites :: "string \<Rightarrow> string list" where
  "spec_prerequisites s = filter (\<lambda>p. p \<noteq> []) (map strip (split_on CHR '','' s))"

text \<open>
  An instance of the collaborators, to run the model on concrete inputs. \<open>ascii_int\<close> is
  \<^verbatim>\<open>int\<close> on ASCII text: surrounding whitespace, an optional sign, decimal digits with
  single underscores between them. \<open>plain_reader\<close> is the reader on a rectangular text
  without quotes: the first line is the header, every further non-empty line a row.
\<close>

definition digit_val :: "char \<Rightarrow> nat option" where
  "digit_val c =
     (if CHR ''0'' \<le> c \<and> c \<le> CHR ''9'' then Some (of_char c - 48) else None)"

fun digits_from :: "nat \<Rightarrow> string \<Rightarrow> nat option" where
  "digits_from acc [] = Some acc"
| "digits_from acc [c] =
     (case digit_val c of None \<Rightarrow> None | Some v \<Rightarrow> Some (10 * acc + v))"
| "digits_from acc (c # d # ds) =
     (if c = CHR ''_''
      then (case digit_val d of None \<Rightarrow> None | Some v \<Rightarrow> digits_from (10 * acc + v) ds)
      else (case digit_val c of
              None \<Rightarrow> None
            | Some v \<Rightarrow> digits_from (10 * acc + v) (d # ds)))"

definition decimal :: "string \<Rightarrow> nat option" where
  "decimal s =
     (case s of
        [] \<Rightarrow> None
      | c # cs \<Rightarrow> (case digit_val c of None \<Rightarrow> None | Some v \<Rightarrow> digits_from v cs))"

definition ascii_int :: "string \<Rightarrow> int option" where
  "ascii_int s =
     (case strip s of
        [] \<Rightarrow> None
      | c # cs \<Rightarrow>
          if c = CHR ''-'' then map_option (\<lambda>n. - int n) (decimal cs)
          else if c = CHR ''+'' then map_option int (decimal cs)
          else map_option int (decimal (c # cs)))"

definition row_of :: "string list \<Rightarrow> string list \<Rightarrow> row" where
  "row_of header cells = map_of (zip header cells)"

definition plain_reader :: "string \<Rightarrow> row list" where
  "plain_reader text =
     (case filter (\<lambda>l. l \<noteq> []) (split_on CHR 0x0A text) of
        [] \<Rightarrow> []
      | header # lines \<Rightarrow>
          map (\<lambda>l. row_of (split_on CHR 0x09 header) (split_on CHR 0x09 l)) lines)"

definition tsv :: "string list list \<Rightarrow> string" where
  "tsv table = join [CHR 0x0A] (map (join [CHR 0x09]) table)"

text \<open>
  The instance serves the texts of \<open>web\<close> under their addresses and the files of \<open>disk\<close>
  under their names; its renderer writes the image file and does not fail. \<open>posix_open\<close>
  is \<^verbatim>\<open>open\<close> on a POSIX file system: a name with a component longer than 255 bytes is
  refused with \<^verbatim>\<open>OSError\<close> (errno 36, file name too long), which is no
  \<^verbatim>\<open>FileNotFoundError\<close>; a name that is not on the disk is not found.
\<close>

definition posix_open :: "(string \<times> string) list \<Rightarrow> string \<Rightarrow> error + string" where
  "posix_open disk path =
     (if list_ex (\<lambda>component. 255 < length component) (split_on CHR ''/'' path)
      then Inl (OtherError ''OSError: [Errno 36] File name too long'')
      else (case map_of disk path of
              None \<Rightarrow> Inl FileNotFoundError
            | Some contents \<Rightarrow> Inr contents))"

definition instance_env :: "(string \<times> string) list \<Rightarrow> (string \<times> string) list \<Rightarrow> env" where
  "instance_env web disk =
     \<lparr>urlopen_read = (\<lambda>url. case map_of web url of
                               None \<Rightarrow> Inl (OtherError ''HTTP Error 404'')
                             | Some fetched \<Rightarrow> Inr fetched),
      open_read = posix_open disk,
      dict_reader = plain_reader,
      py_int = ascii_int,
      gv_render = (\<lambda>g name fs. (fs @ [(name @ ''.png'', ''PNG'')], None)),
      gv_source = (\<lambda>g. ''digraph'')\<rparr>"

definition sheets :: "string list list \<Rightarrow> string list list \<Rightarrow> env" where
  "sheets tech ps = instance_env [(TECH_TREE_URL, tsv tech), (PARTS_LIST_URL, tsv ps)] []"

text \<open>
  The tables of the scenario of section 8 of the specification, and variants: a tier
  that is no number, a node name that occurs twice, a parts table with a \<^verbatim>\<open>Tech Node\<close>
  cell of one blank, a prerequisites cell with blanks and empty pieces, and a tech tree whose
  text is longer than 255 bytes.
\<close>

definition tech_header :: "string list" where
  "tech_header = [''Node'', ''Tier'', ''Description'', ''Prerequisites'']"

definition parts_header :: "string list" where
  "parts_header = [''Category'', ''Name'', ''Tech Node'', ''Size'']"

definition tech_table :: "string list list" where
  "tech_table =
     [tech_header,
      [''A'', ''0'', ''first'', [] ],
      [''B'', ''1'', ''second'', ''A, Z'']]"

definition parts_table :: "string list list" where
  "parts_table =
     [parts_header,
      [''Engine'', ''E1'', ''A'', ''Small''],
      [''Fuel'', ''F1'', [], [] ]]"

definition tech_table_bad_tier :: "string list list" where
  "tech_table_bad_tier =
     [tech_header,
      [''A'', ''0'', ''first'', [] ],
      [''B'', ''abc'', ''second'', ''A'']]"

definition tech_table_twice :: "string list list" where
  "tech_table_twice =
     [tech_header,
      [''A'', ''0'', ''first'', [] ],
      [''B'', ''1'', ''second'', ''A''],
      [''A'', ''2'', ''again'', ''B'']]"

definition tech_table_spaced :: "string list list" where
  "tech_table_spaced =
     [tech_header,
      [''A'', ''0'', ''first'', [] ],
      [''B'', ''1'', ''second'', '' A, ,Z ,'']]"

definition tech_table_long :: "string list list" where
  "tech_table_long =
     [tech_header,
      [''A'', ''0'', replicate 300 CHR ''x'', [] ]]"

definition parts_table_blank :: "string list list" where
  "parts_table_blank =
     [parts_header,
      [''Engine'', ''E1'', '' A '', ''Small''],
      [''Fuel'', ''F1'', '' '', [] ]]"

section \<open>Properties of the Parts Assigner\<close>

subsection \<open>What the loop computes\<close>

lemma dict_modify_keys: "map fst (dict_modify k f d) = map fst d"
  by (induction d) auto

lemma dict_modify_distinct:
  "distinct (map fst d) \<Longrightarrow>
   dict_modify k f d = map (\<lambda>(k', v). (k', if k' = k then f v else v)) d"
proof (induction d)
  case Nil
  then show ?case by simp
next
  case (Cons kv d)
  obtain k' v' where kv: "kv = (k', v')" by (cases kv)
  show ?case
  proof (cases "k' = k")
    case True
    with Cons.prems kv have "k \<notin> fst ` set d" by simp
    then have "map (\<lambda>(k', v). (k', if k' = k then f v else v)) d = d"
      by (induction d) auto
    with True kv show ?thesis by simp
  next
    case False
    with Cons kv show ?thesis by simp
  qed
qed

lemma with_parts_keys: "map fst (with_parts tn ps) = map fst tn"
  by (simp add: with_parts_def case_prod_unfold comp_def)

lemma with_parts_Nil: "with_parts tn [] = tn"
  by (simp add: with_parts_def parts_for_def case_prod_unfold)

lemma assign_loop:
  assumes "distinct (map fst tn)"
  shows "foldl assign_step (with_parts tn qs, filter (\<lambda>p. routed tn p = None) qs) ps =
         (with_parts tn (qs @ ps), filter (\<lambda>p. routed tn p = None) (qs @ ps))"
proof (induction ps arbitrary: qs)
  case Nil
  then show ?case by simp
next
  case (Cons p ps)
  have step: "assign_step (with_parts tn qs, filter (\<lambda>p. routed tn p = None) qs) p =
              (with_parts tn (qs @ [p]), filter (\<lambda>p. routed tn p = None) (qs @ [p]))"
  proof (cases "routed tn p")
    case None
    then have "\<not> (truthy (tech_node p) \<and> dict_contains (the (tech_node p)) tn)"
      by (auto simp: routed_def truthy_def split: if_splits option.splits)
    then have "\<not> (truthy (tech_node p) \<and> dict_contains (the (tech_node p)) (with_parts tn qs))"
      by (simp add: dict_contains_def with_parts_keys)
    moreover have "with_parts tn (qs @ [p]) = with_parts tn qs"
      using None by (simp add: with_parts_def parts_for_def)
    ultimately show ?thesis using None by (simp add: assign_step_def)
  next
    case (Some k)
    then have t: "truthy (tech_node p) \<and> dict_contains (the (tech_node p)) tn"
      and k: "tech_node p = Some k"
      by (auto simp: routed_def split: if_splits)
    from t have t': "truthy (tech_node p) \<and> dict_contains (the (tech_node p)) (with_parts tn qs)"
      by (simp add: dict_contains_def with_parts_keys)
    have d: "distinct (map fst (with_parts tn qs))"
      using assms by (simp add: with_parts_keys)
    have "dict_modify k (append_part p) (with_parts tn qs) = with_parts tn (qs @ [p])"
      unfolding dict_modify_distinct [OF d]
      using Some by (auto simp: with_parts_def parts_for_def append_part_def)
    with t' k Some show ?thesis by (simp add: assign_step_def)
  qed
  show ?case
    using Cons.IH [of "qs @ [p]"] step by simp
qed

lemma assign_closed_form:
  assumes "is_dict tn"
  shows "assign_parts_to_nodes tn ps =
         (with_parts tn ps, filter (\<lambda>p. routed tn p = None) ps)"
  using assign_loop [OF assms [unfolded is_dict_def], of "[]" ps]
  by (simp add: assign_parts_to_nodes_def with_parts_Nil)

lemma routed_Some_iff:
  "routed tn p = Some k \<longleftrightarrow> tech_node p = Some k \<and> k \<noteq> [] \<and> dict_contains k tn"
  by (auto simp: routed_def truthy_def split: option.splits)

lemma routed_None_iff:
  "routed tn p = None \<longleftrightarrow> \<not> (\<exists>k. tech_node p = Some k \<and> k \<noteq> [] \<and> dict_contains k tn)"
  by (auto simp: routed_def truthy_def split: option.splits)

subsection \<open>Counting the parts\<close>

lemma mset_concat_split:
  "mset (concat (map (\<lambda>(k, nd). f nd @ g k) tn)) =
   mset (concat (map (\<lambda>(k, nd). f nd) tn)) + mset (concat (map g (map fst tn)))"
  by (induction tn) auto

lemma mset_concat_filters:
  "distinct ks \<Longrightarrow>
   mset (concat (map (\<lambda>k. filter (\<lambda>p. r p = Some k) ps) ks)) =
   filter_mset (\<lambda>p. \<exists>k\<in>set ks. r p = Some k) (mset ps)"
proof (induction ks)
  case Nil
  then show ?case by simp
next
  case (Cons k ks)
  then have "k \<notin> set ks" by simp
  then have "filter_mset (\<lambda>p. r p = Some k) (mset ps) +
             filter_mset (\<lambda>p. \<exists>k\<in>set ks. r p = Some k) (mset ps) =
             filter_mset (\<lambda>p. \<exists>k'\<in>set (k # ks). r p = Some k') (mset ps)"
    by (intro multiset_eqI) auto
  with Cons show ?case by simp
qed

lemma mset_with_parts:
  assumes "is_dict tn"
  shows "mset (all_node_parts (with_parts tn ps)) =
         mset (all_node_parts tn) + filter_mset (\<lambda>p. routed tn p \<noteq> None) (mset ps)"
proof -
  have "all_node_parts (with_parts tn ps) =
        concat (map (\<lambda>(k, nd). parts nd @ parts_for tn k ps) tn)"
    by (simp add: all_node_parts_def with_parts_def case_prod_unfold comp_def)
  then have "mset (all_node_parts (with_parts tn ps)) =
        mset (all_node_parts tn) +
        mset (concat (map (\<lambda>k. filter (\<lambda>p. routed tn p = Some k) ps) (map fst tn)))"
    by (simp add: mset_concat_split all_node_parts_def parts_for_def)
  also have "mset (concat (map (\<lambda>k. filter (\<lambda>p. routed tn p = Some k) ps) (map fst tn))) =
        filter_mset (\<lambda>p. \<exists>k\<in>set (map fst tn). routed tn p = Some k) (mset ps)"
    using assms by (intro mset_concat_filters) (simp add: is_dict_def)
  also have "(\<lambda>p. \<exists>k\<in>set (map fst tn). routed tn p = Some k) = (\<lambda>p. routed tn p \<noteq> None)"
    by (auto simp: routed_Some_iff dict_contains_def)
  finally show ?thesis .
qed

lemma assign_conserves:
  assumes "is_dict tn"
  shows "mset (all_node_parts (fst (assign_parts_to_nodes tn ps))) +
         mset (snd (assign_parts_to_nodes tn ps)) =
         mset (all_node_parts tn) + mset ps"
proof -
  have "filter_mset (\<lambda>p. routed tn p \<noteq> None) (mset ps) +
        filter_mset (\<lambda>p. routed tn p = None) (mset ps) = mset ps"
    by (intro multiset_eqI) auto
  then show ?thesis
    by (simp add: assign_closed_form [OF assms] mset_with_parts [OF assms] add.assoc)
qed

lemma length_filter_key:
  "distinct (map fst d) \<Longrightarrow> k \<in> set (map fst d) \<Longrightarrow>
   length (filter (\<lambda>(k', v). k' = k) d) = 1"
proof (induction d)
  case Nil
  then show ?case by simp
next
  case (Cons kv d)
  obtain k' v' where kv: "kv = (k', v')" by (cases kv)
  show ?case
  proof (cases "k' = k")
    case True
    with Cons.prems kv have "k \<notin> fst ` set d" by simp
    then have "filter (\<lambda>(k', v). k' = k) d = []"
      by (force simp: filter_empty_conv)
    with True kv show ?thesis by simp
  next
    case False
    with Cons kv show ?thesis by simp
  qed
qed

lemma no_parts_yet_all: "no_parts_yet tn \<Longrightarrow> all_node_parts tn = []"
  by (induction tn) (auto simp: no_parts_yet_def all_node_parts_def)

lemma one_destination:
  assumes "is_dict tn" and "no_parts_yet tn" and "p \<in> set ps"
  shows "length (filter (\<lambda>l. p \<in> set l)
           (filter (\<lambda>p. routed tn p = None) ps #
            map (\<lambda>(k, nd). parts nd) (with_parts tn ps))) = 1"
proof -
  have lists: "map (\<lambda>(k, nd). parts nd) (with_parts tn ps) =
               map (\<lambda>(k, nd). parts_for tn k ps) tn"
    using assms(2)
    by (induction tn) (auto simp: with_parts_def no_parts_yet_def)
  show ?thesis
  proof (cases "routed tn p")
    case None
    then have "filter (\<lambda>l. p \<in> set l) (map (\<lambda>(k, nd). parts_for tn k ps) tn) = []"
      by (auto simp: filter_empty_conv parts_for_def)
    with None assms(3) show ?thesis by (simp add: lists)
  next
    case (Some k)
    then have k: "k \<in> set (map fst tn)"
      by (simp add: routed_Some_iff dict_contains_def)
    have "filter (\<lambda>l. p \<in> set l) (map (\<lambda>(k, nd). parts_for tn k ps) tn) =
          map (\<lambda>(k, nd). parts_for tn k ps) (filter (\<lambda>(k', nd). k' = k) tn)"
      using Some assms(3)
      by (auto simp: filter_map comp_def parts_for_def case_prod_unfold intro!: arg_cong2 [where f = map] filter_cong)
    then have "length (filter (\<lambda>l. p \<in> set l) (map (\<lambda>(k, nd). parts_for tn k ps) tn)) = 1"
      using length_filter_key [OF assms(1) [unfolded is_dict_def] k] by simp
    with Some show ?thesis by (simp add: lists)
  qed
qed

subsection \<open>The partition of the parts\<close>

text \<open>
  Claim C1, as the specification states it, for every tech-node mapping: after
  \<^verbatim>\<open>assign_parts_to_nodes\<close> the parts lists of the nodes and the unassigned list together
  hold exactly the input parts. The function appends to the lists it finds and never
  empties them, so the statement fails for a mapping that already holds parts: run a
  second time on the same input, node \<^verbatim>\<open>A\<close> holds the part \<^verbatim>\<open>E1\<close> twice while the input
  holds it once.
\<close>

theorem assign_partition_counterexample:
  "mset (all_node_parts (fst (assign_parts_to_nodes
      [(''A'', \<lparr>tier = 0, description = ''first'', prerequisites = [],
                parts = [\<lparr>category = ''Engine'', name = ''E1'', tech_node = Some ''A'',
                          size_field = ''Small''\<rparr>]\<rparr>)]
      [\<lparr>category = ''Engine'', name = ''E1'', tech_node = Some ''A'',
        size_field = ''Small''\<rparr>]))) +
   mset (snd (assign_parts_to_nodes
      [(''A'', \<lparr>tier = 0, description = ''first'', prerequisites = [],
                parts = [\<lparr>category = ''Engine'', name = ''E1'', tech_node = Some ''A'',
                          size_field = ''Small''\<rparr>]\<rparr>)]
      [\<lparr>category = ''Engine'', name = ''E1'', tech_node = Some ''A'',
        size_field = ''Small''\<rparr>]))
   \<noteq> mset [\<lparr>category = ''Engine'', name = ''E1'', tech_node = Some ''A'',
              size_field = ''Small''\<rparr>]"
  by (simp add: assign_parts_to_nodes_def assign_step_def truthy_def dict_contains_def
      append_part_def all_node_parts_def)

text \<open>
  Claim C1, amended: for every tech-node mapping whose nodes hold no parts yet, as
  \<^verbatim>\<open>read_tech_tree\<close> returns it, and every input parts list, the multiset union of all
  nodes' parts lists and the returned unassigned list equals the input parts list, and
  each input part appears in exactly one of these lists.
\<close>

theorem assign_partition:
  assumes "is_dict tn" and "no_parts_yet tn"
  shows "mset (all_node_parts (fst (assign_parts_to_nodes tn ps))) +
         mset (snd (assign_parts_to_nodes tn ps)) = mset ps \<and>
         (\<forall>p\<in>set ps.
            length (filter (\<lambda>l. p \<in> set l)
              (snd (assign_parts_to_nodes tn ps) #
               map (\<lambda>(k, nd). parts nd) (fst (assign_parts_to_nodes tn ps)))) = 1)"
proof
  show "mset (all_node_parts (fst (assign_parts_to_nodes tn ps))) +
        mset (snd (assign_parts_to_nodes tn ps)) = mset ps"
    using assign_conserves [OF assms(1), of ps] no_parts_yet_all [OF assms(2)] by simp
next
  show "\<forall>p\<in>set ps.
          length (filter (\<lambda>l. p \<in> set l)
            (snd (assign_parts_to_nodes tn ps) #
             map (\<lambda>(k, nd). parts nd) (fst (assign_parts_to_nodes tn ps)))) = 1"
    using one_destination [OF assms] by (simp add: assign_closed_form [OF assms(1)])
qed

theorem assign_partition_witness:
  "mset (all_node_parts (fst (assign_parts_to_nodes
      [(''A'', \<lparr>tier = 0, description = ''first'', prerequisites = [], parts = []\<rparr>),
       (''B'', \<lparr>tier = 1, description = ''second'', prerequisites = [''A''], parts = []\<rparr>)]
      [\<lparr>category = ''Engine'', name = ''E1'', tech_node = Some ''A'', size_field = ''Small''\<rparr>,
       \<lparr>category = ''Fuel'', name = ''F1'', tech_node = None, size_field = []\<rparr>]))) +
   mset (snd (assign_parts_to_nodes
      [(''A'', \<lparr>tier = 0, description = ''first'', prerequisites = [], parts = []\<rparr>),
       (''B'', \<lparr>tier = 1, description = ''second'', prerequisites = [''A''], parts = []\<rparr>)]
      [\<lparr>category = ''Engine'', name = ''E1'', tech_node = Some ''A'', size_field = ''Small''\<rparr>,
       \<lparr>category = ''Fuel'', name = ''F1'', tech_node = None, size_field = []\<rparr>])) =
   mset [\<lparr>category = ''Engine'', name = ''E1'', tech_node = Some ''A'', size_field = ''Small''\<rparr>,
         \<lparr>category = ''Fuel'', name = ''F1'', tech_node = None, size_field = []\<rparr>]"
proof -
  have d: "is_dict
     [(''A'', \<lparr>tier = 0, description = ''first'', prerequisites = [], parts = []\<rparr>),
      (''B'', \<lparr>tier = 1, description = ''second'', prerequisites = [''A''], parts = []\<rparr>)]"
    by (simp add: is_dict_def)
  have n: "no_parts_yet
     [(''A'', \<lparr>tier = 0, description = ''first'', prerequisites = [], parts = []\<rparr>),
      (''B'', \<lparr>tier = 1, description = ''second'', prerequisites = [''A''], parts = []\<rparr>)]"
    by (simp add: no_parts_yet_def)
  from assign_partition [OF d n] show ?thesis by blast
qed

subsection \<open>Where each part goes\<close>

text \<open>
  Claim C2, as the specification states it: a part whose \<^verbatim>\<open>tech_node\<close> field is present
  and equal to a key of the mapping is appended to that node's list. Line 104 tests the
  field for truth before it looks the key up, so a part whose field is the empty string
  goes to the unassigned list even where the empty string is a key. Both arise from the
  readers: a \<^verbatim>\<open>Node\<close> cell that is empty, and a \<^verbatim>\<open>Tech Node\<close> cell of blanks.
\<close>

theorem assign_routing_counterexample:
  "tech_node \<lparr>category = ''Fuel'', name = ''F1'', tech_node = Some [], size_field = []\<rparr> \<noteq> None \<and>
   dict_contains (the (tech_node
       \<lparr>category = ''Fuel'', name = ''F1'', tech_node = Some [], size_field = []\<rparr>))
     [([], \<lparr>tier = 0, description = ''first'', prerequisites = [], parts = []\<rparr>)] \<and>
   assign_parts_to_nodes
     [([], \<lparr>tier = 0, description = ''first'', prerequisites = [], parts = []\<rparr>)]
     [\<lparr>category = ''Fuel'', name = ''F1'', tech_node = Some [], size_field = []\<rparr>] =
   ([([], \<lparr>tier = 0, description = ''first'', prerequisites = [], parts = []\<rparr>)],
    [\<lparr>category = ''Fuel'', name = ''F1'', tech_node = Some [], size_field = []\<rparr>])"
  by (simp add: assign_parts_to_nodes_def assign_step_def truthy_def dict_contains_def)

text \<open>
  Claim C2, amended: for every part of the input list, if its \<^verbatim>\<open>tech_node\<close> field is
  present, not the empty string, and equal to a key of the mapping, the part is appended
  to that node's parts list; otherwise it is appended to the returned unassigned list. Both
  keep the relative input order: each list is the old list followed by a filter of the
  input.
\<close>

theorem assign_routing:
  assumes "is_dict tn"
  shows "assign_parts_to_nodes tn ps =
         (map (\<lambda>(k, nd).
                 (k, nd\<lparr>parts := parts nd @ filter (\<lambda>p. tech_node p = Some k \<and> k \<noteq> []) ps\<rparr>))
              tn,
          filter (\<lambda>p. \<not> (\<exists>k. tech_node p = Some k \<and> k \<noteq> [] \<and> dict_contains k tn)) ps)"
proof -
  have "with_parts tn ps =
        map (\<lambda>(k, nd).
               (k, nd\<lparr>parts := parts nd @ filter (\<lambda>p. tech_node p = Some k \<and> k \<noteq> []) ps\<rparr>)) tn"
  proof -
    have "parts_for tn k ps = filter (\<lambda>p. tech_node p = Some k \<and> k \<noteq> []) ps"
      if "(k, nd) \<in> set tn" for k nd
    proof -
      from that have "dict_contains k tn"
        by (force simp: dict_contains_def)
      then show ?thesis
        by (simp add: parts_for_def routed_Some_iff)
    qed
    then show ?thesis
      unfolding with_parts_def by (intro map_cong) auto
  qed
  moreover have "filter (\<lambda>p. routed tn p = None) ps =
        filter (\<lambda>p. \<not> (\<exists>k. tech_node p = Some k \<and> k \<noteq> [] \<and> dict_contains k tn)) ps"
    by (simp add: routed_None_iff)
  ultimately show ?thesis by (simp add: assign_closed_form [OF assms])
qed

theorem assign_routing_witness:
  "assign_parts_to_nodes
     [(''A'', \<lparr>tier = 0, description = ''first'', prerequisites = [], parts = []\<rparr>),
      (''B'', \<lparr>tier = 1, description = ''second'', prerequisites = [''A''], parts = []\<rparr>)]
     [\<lparr>category = ''Engine'', name = ''E1'', tech_node = Some ''A'', size_field = ''Small''\<rparr>,
      \<lparr>category = ''Fuel'', name = ''F1'', tech_node = None, size_field = []\<rparr>,
      \<lparr>category = ''Engine'', name = ''E2'', tech_node = Some ''A'', size_field = []\<rparr>,
      \<lparr>category = ''Wing'', name = ''W1'', tech_node = Some ''Q'', size_field = []\<rparr>] =
   ([(''A'', \<lparr>tier = 0, description = ''first'', prerequisites = [],
             parts = [\<lparr>category = ''Engine'', name = ''E1'', tech_node = Some ''A'',
                       size_field = ''Small''\<rparr>,
                      \<lparr>category = ''Engine'', name = ''E2'', tech_node = Some ''A'',
                       size_field = []\<rparr>]\<rparr>),
     (''B'', \<lparr>tier = 1, description = ''second'', prerequisites = [''A''], parts = []\<rparr>)],
    [\<lparr>category = ''Fuel'', name = ''F1'', tech_node = None, size_field = []\<rparr>,
     \<lparr>category = ''Wing'', name = ''W1'', tech_node = Some ''Q'', size_field = []\<rparr>])"
proof -
  have d: "is_dict
     [(''A'', \<lparr>tier = 0, description = ''first'', prerequisites = [], parts = []\<rparr>),
      (''B'', \<lparr>tier = 1, description = ''second'', prerequisites = [''A''], parts = []\<rparr>)]"
    by (simp add: is_dict_def)
  show ?thesis
    unfolding assign_routing [OF d] by (simp add: dict_contains_def)
qed

subsection \<open>What the assigner leaves alone\<close>

lemma dict_get_map:
  "dict_get (map (\<lambda>(k, v). (k, f k v)) d) k = map_option (f k) (dict_get d k)"
  by (induction d) (auto simp: dict_get_def)

text \<open>
  Claim C10: \<^verbatim>\<open>assign_parts_to_nodes\<close> leaves the keys of the mapping, in their order, and
  every node's tier, description and prerequisites unchanged; each node afterwards is the
  node before with input parts appended to its parts list; and no part record is changed:
  the parts held afterwards are the parts held before and the input parts, as multisets.
\<close>

theorem assign_frame:
  assumes "is_dict tn" and "assign_parts_to_nodes tn ps = (tn', unassigned)"
  shows "map fst tn' = map fst tn \<and>
         (\<forall>k nd. dict_get tn k = Some nd \<longrightarrow>
            (\<exists>added. dict_get tn' k = Some (nd\<lparr>parts := parts nd @ added\<rparr>) \<and>
                     set added \<subseteq> set ps)) \<and>
         (\<forall>k nd'. dict_get tn' k = Some nd' \<longrightarrow>
            (\<exists>nd. dict_get tn k = Some nd \<and> tier nd' = tier nd \<and>
                  description nd' = description nd \<and>
                  prerequisites nd' = prerequisites nd)) \<and>
         mset (all_node_parts tn') + mset unassigned = mset (all_node_parts tn) + mset ps"
proof -
  from assms have tn': "tn' = with_parts tn ps"
    and un: "unassigned = filter (\<lambda>p. routed tn p = None) ps"
    by (simp_all add: assign_closed_form)
  have get: "dict_get tn' k = map_option (\<lambda>nd. nd\<lparr>parts := parts nd @ parts_for tn k ps\<rparr>)
                                (dict_get tn k)" for k
    unfolding tn' with_parts_def by (rule dict_get_map)
  have "map fst tn' = map fst tn"
    by (simp add: tn' with_parts_keys)
  moreover have "\<exists>added. dict_get tn' k = Some (nd\<lparr>parts := parts nd @ added\<rparr>) \<and>
                   set added \<subseteq> set ps" if "dict_get tn k = Some nd" for k nd
  proof (intro exI conjI)
    show "dict_get tn' k = Some (nd\<lparr>parts := parts nd @ parts_for tn k ps\<rparr>)"
      using that by (simp add: get)
    show "set (parts_for tn k ps) \<subseteq> set ps"
      by (auto simp: parts_for_def)
  qed
  moreover have "\<exists>nd. dict_get tn k = Some nd \<and> tier nd' = tier nd \<and>
                  description nd' = description nd \<and> prerequisites nd' = prerequisites nd"
    if "dict_get tn' k = Some nd'" for k nd'
    using that by (auto simp: get)
  moreover have "mset (all_node_parts tn') + mset unassigned =
                 mset (all_node_parts tn) + mset ps"
    using assign_conserves [OF assms(1), of ps] assms(2) by simp
  ultimately show ?thesis by blast
qed

theorem assign_frame_witness:
  "map fst (fst (assign_parts_to_nodes
      [(''A'', \<lparr>tier = 0, description = ''first'', prerequisites = [], parts = []\<rparr>),
       (''B'', \<lparr>tier = 1, description = ''second'', prerequisites = [''A''], parts = []\<rparr>)]
      [\<lparr>category = ''Engine'', name = ''E1'', tech_node = Some ''A'', size_field = ''Small''\<rparr>,
       \<lparr>category = ''Fuel'', name = ''F1'', tech_node = None, size_field = []\<rparr>])) =
   [''A'', ''B'']"
proof -
  have d: "is_dict
     [(''A'', \<lparr>tier = 0, description = ''first'', prerequisites = [], parts = []\<rparr>),
      (''B'', \<lparr>tier = 1, description = ''second'', prerequisites = [''A''], parts = []\<rparr>)]"
    by (simp add: is_dict_def)
  from assign_frame [OF d surjective_pairing] show ?thesis by simp
qed

section \<open>Properties of the graph model\<close>

subsection \<open>The edges\<close>

lemma edges_of_node:
  "g_edges (fold (\<lambda>prereq d. if P prereq then add_edge (prereq, n) d else d) prs dot) =
   g_edges dot @ map (\<lambda>prereq. (prereq, n)) (filter P prs)"
  by (induction prs arbitrary: dot) (auto simp: add_edge_def)

lemma edges_of_nodes:
  "g_edges (fold (\<lambda>(node_name, node_data).
              fold (\<lambda>prereq d. if P prereq then add_edge (prereq, node_name) d else d)
                   (prerequisites node_data)) items dot) =
   g_edges dot @
   concat (map (\<lambda>(node_name, node_data).
                  map (\<lambda>prereq. (prereq, node_name)) (filter P (prerequisites node_data)))
               items)"
  by (induction items arbitrary: dot) (auto simp: edges_of_node)

lemma add_tech_nodes_edges: "g_edges (add_tech_nodes tn dot) = g_edges dot"
proof -
  have "g_edges (fold (\<lambda>(node_name, node_data).
            add_node \<lparr>node_id = node_name, node_label = node_label node_name node_data,
                      node_attrs = [(''fillcolor'', ''lightblue'')]\<rparr>) items dot) = g_edges dot"
    for items
    by (induction items arbitrary: dot) (auto simp: add_node_def)
  then show ?thesis by (simp add: add_tech_nodes_def)
qed

text \<open>
  Claim C3: the edge loop of \<^verbatim>\<open>create_tech_tree_graph\<close> adds, for every tech-node mapping and
  in iteration order, the edge (prerequisite, node) exactly for the prerequisite names of
  a node that are keys of the mapping; a name that is no key adds nothing and raises
  nothing. The loop cannot fail, and with no unassigned parts the function returns the
  graph with exactly these edges, so both endpoints of every edge are keys.
\<close>

theorem prerequisite_edges:
  "g_edges (add_prerequisite_edges tn dot) =
     g_edges dot @
     concat (map (\<lambda>(node_name, node_data).
                    map (\<lambda>prereq. (prereq, node_name))
                        (filter (\<lambda>prereq. dict_contains prereq tn) (prerequisites node_data)))
                 tn) \<and>
   (\<exists>g. create_tech_tree_graph tn [] = Inr g \<and>
        (\<forall>a b. (a, b) \<in> set (g_edges g) \<longleftrightarrow>
           (\<exists>node_data. (b, node_data) \<in> set tn \<and> a \<in> set (prerequisites node_data) \<and>
                        dict_contains a tn)) \<and>
        (\<forall>(a, b)\<in>set (g_edges g). dict_contains a tn \<and> dict_contains b tn))"
proof
  show loop: "g_edges (add_prerequisite_edges tn dot) =
     g_edges dot @
     concat (map (\<lambda>(node_name, node_data).
                    map (\<lambda>prereq. (prereq, node_name))
                        (filter (\<lambda>prereq. dict_contains prereq tn) (prerequisites node_data)))
                 tn)" for dot
    unfolding add_prerequisite_edges_def by (rule edges_of_nodes)
  define g where "g = add_prerequisite_edges tn (add_tech_nodes tn new_digraph)"
  have ret: "create_tech_tree_graph tn [] = Inr g"
    by (simp add: create_tech_tree_graph_def g_def)
  have edges: "g_edges g =
     concat (map (\<lambda>(node_name, node_data).
                    map (\<lambda>prereq. (prereq, node_name))
                        (filter (\<lambda>prereq. dict_contains prereq tn) (prerequisites node_data)))
                 tn)"
    by (simp add: g_def loop add_tech_nodes_edges new_digraph_def)
  have iff: "(a, b) \<in> set (g_edges g) \<longleftrightarrow>
           (\<exists>node_data. (b, node_data) \<in> set tn \<and> a \<in> set (prerequisites node_data) \<and>
                        dict_contains a tn)" for a b
    unfolding edges by auto
  have "dict_contains a tn \<and> dict_contains b tn" if "(a, b) \<in> set (g_edges g)" for a b
  proof -
    from that obtain node_data where "(b, node_data) \<in> set tn" and "dict_contains a tn"
      using iff by blast
    then show ?thesis by (force simp: dict_contains_def)
  qed
  with ret iff
  show "\<exists>g. create_tech_tree_graph tn [] = Inr g \<and>
        (\<forall>a b. (a, b) \<in> set (g_edges g) \<longleftrightarrow>
           (\<exists>node_data. (b, node_data) \<in> set tn \<and> a \<in> set (prerequisites node_data) \<and>
                        dict_contains a tn)) \<and>
        (\<forall>(a, b)\<in>set (g_edges g). dict_contains a tn \<and> dict_contains b tn)"
    by blast
qed

theorem prerequisite_edges_witness:
  "g_edges (add_prerequisite_edges
      [(''A'', \<lparr>tier = 0, description = ''first'', prerequisites = [], parts = []\<rparr>),
       (''B'', \<lparr>tier = 1, description = ''second'', prerequisites = [''A'', ''Z''],
               parts = []\<rparr>)]
      new_digraph) = [(''A'', ''B'')]"
  using prerequisite_edges
    [of "[(''A'', \<lparr>tier = 0, description = ''first'', prerequisites = [], parts = []\<rparr>),
          (''B'', \<lparr>tier = 1, description = ''second'', prerequisites = [''A'', ''Z''],
                  parts = []\<rparr>)]" new_digraph]
  by (simp add: dict_contains_def new_digraph_def)

subsection \<open>The labels\<close>

text \<open>
  In the label of a tech node a part without a size is its escaped name after the bullet,
  and nothing else: lines 128 to 131 add the parenthesis only for a size that is not empty.
\<close>

lemma node_part_label_no_size:
  "size_field p = [] \<Longrightarrow> node_part_label p = ''<BR/>  '' @ bullet @ '' '' @ html_escape (name p)"
  by (simp add: node_part_label_def)

lemma html_escape_empty: "html_escape s = [] \<longleftrightarrow> s = []"
  by (cases s) (auto simp: html_escape_def escape_char_def)

lemma node_part_label_size:
  "size_field p \<noteq> [] \<Longrightarrow>
   node_part_label p =
   ''<BR/>  '' @ bullet @ '' '' @ html_escape (name p) @ '' ('' @ html_escape (size_field p) @ '')''"
  by (simp add: node_part_label_def html_escape_empty)

text \<open>The grouping of the unassigned parts never leaves a category without a part.\<close>

lemma dict_set_new: "k \<notin> fst ` set d \<Longrightarrow> dict_set k v d = d @ [(k, v)]"
  by (induction d) auto

lemma dict_modify_new: "k \<notin> fst ` set d \<Longrightarrow> dict_modify k f (d @ [(k, v)]) = d @ [(k, f v)]"
  by (induction d) auto

lemma group_step_cases:
  "group_step p bc =
   (if dict_contains (category p) bc then dict_modify (category p) (\<lambda>l. l @ [p]) bc
    else bc @ [(category p, [p])])"
  by (simp add: group_step_def Let_def dict_contains_def dict_set_new dict_modify_new)

lemma dict_modify_entries:
  "(k', v') \<in> set (dict_modify k f d) \<Longrightarrow> \<exists>v. (k', v) \<in> set d \<and> (v' = v \<or> v' = f v)"
proof (induction d)
  case Nil
  then show ?case by simp
next
  case (Cons kv d)
  obtain k0 v0 where kv: "kv = (k0, v0)" by (cases kv)
  show ?case
  proof (cases "k0 = k")
    case True
    with Cons.prems kv show ?thesis by auto
  next
    case False
    with Cons.prems kv have "(k', v') = (k0, v0) \<or> (k', v') \<in> set (dict_modify k f d)"
      by simp
    then show ?thesis
    proof
      assume "(k', v') = (k0, v0)"
      with kv show ?thesis by auto
    next
      assume "(k', v') \<in> set (dict_modify k f d)"
      from Cons.IH [OF this] show ?thesis by auto
    qed
  qed
qed

lemma dict_modify_Nil: "dict_modify k f d = [] \<longleftrightarrow> d = []"
  by (cases d) (auto split: if_splits)

lemma group_step_invariant:
  assumes "\<forall>(c, l)\<in>set bc. l \<noteq> []"
  shows "group_step p bc \<noteq> [] \<and> (\<forall>(c, l)\<in>set (group_step p bc). l \<noteq> [])"
proof (cases "dict_contains (category p) bc")
  case True
  then have "bc \<noteq> []" by (auto simp: dict_contains_def)
  moreover have "l \<noteq> []" if "(c, l) \<in> set (dict_modify (category p) (\<lambda>l. l @ [p]) bc)" for c l
  proof -
    from dict_modify_entries [OF that]
    obtain l0 where "(c, l0) \<in> set bc" and "l = l0 \<or> l = l0 @ [p]" by blast
    with assms show ?thesis by auto
  qed
  ultimately show ?thesis using True by (auto simp: group_step_cases dict_modify_Nil)
next
  case False
  with assms show ?thesis by (auto simp: group_step_cases)
qed

lemma group_fold_invariant:
  "\<forall>(c, l)\<in>set bc. l \<noteq> [] \<Longrightarrow> bc \<noteq> [] \<or> ps \<noteq> [] \<Longrightarrow>
   fold group_step ps bc \<noteq> [] \<and> (\<forall>(c, l)\<in>set (fold group_step ps bc). l \<noteq> [])"
proof (induction ps arbitrary: bc)
  case Nil
  then show ?case by simp
next
  case (Cons p ps)
  from group_step_invariant [OF Cons.prems(1), of p]
  show ?case using Cons.IH [of "group_step p bc"] by simp
qed

lemma category_block_raises:
  "ps \<noteq> [] \<Longrightarrow> category_block ps label_parts = Inl (NameError ''size_str'')"
  by (cases ps) (auto simp: unassigned_part_label_def)

lemma category_blocks_raises:
  assumes "cats \<noteq> []" and "set cats \<subseteq> fst ` set bc" and "\<forall>(c, l)\<in>set bc. l \<noteq> []"
  shows "category_blocks cats bc label_parts = Inl (NameError ''size_str'')"
proof -
  from assms(1) obtain c cs where cats: "cats = c # cs" by (cases cats) auto
  with assms(2) have "c \<in> fst ` set bc" by simp
  then obtain l where l: "map_of bc c = Some l"
    by (cases "map_of bc c") (auto simp: map_of_eq_None_iff)
  then have "(c, l) \<in> set bc" by (rule map_of_SomeD)
  with assms(3) have "l \<noteq> []" by auto
  then show ?thesis
    by (simp add: cats dict_get_def l category_block_raises)
qed

text \<open>
  So whenever a part is unassigned, the function raises at line 161 and returns no graph,
  whatever the sizes of the parts are.
\<close>

lemma unassigned_cluster_raises:
  assumes "unassigned_parts \<noteq> []"
  shows "create_tech_tree_graph tn unassigned_parts = Inl (NameError ''size_str'')"
proof -
  let ?bc = "group_by_category unassigned_parts"
  have inv: "?bc \<noteq> [] \<and> (\<forall>(c, l)\<in>set ?bc. l \<noteq> [])"
    unfolding group_by_category_def using assms by (intro group_fold_invariant) auto
  then have "sort (map fst ?bc) \<noteq> []"
    by (metis length_sort length_map length_0_conv)
  moreover have "set (sort (map fst ?bc)) \<subseteq> fst ` set ?bc" by simp
  ultimately have "category_blocks (sort (map fst ?bc)) ?bc [] = Inl (NameError ''size_str'')"
    using inv by (intro category_blocks_raises) auto
  then have "unassigned_cluster unassigned_parts = Inl (NameError ''size_str'')"
    by (simp add: unassigned_cluster_def Let_def)
  with assms show ?thesis by (simp add: create_tech_tree_graph_def Let_def)
qed

text \<open>
  Claim C4: a part whose size is empty is labelled with its name and no parenthesis, in the
  label of a tech node and in the label of the unassigned parts. The first holds
  (\<open>node_part_label_no_size\<close>). The second fails: for the unassigned part \<^verbatim>\<open>F1\<close> with an
  empty size, of the scenario of section 8 of the specification,
  \<^verbatim>\<open>create_tech_tree_graph\<close> produces no label but raises \<^verbatim>\<open>NameError\<close>.
\<close>

theorem unassigned_label_raises:
  "create_tech_tree_graph
     [(''A'', \<lparr>tier = 0, description = ''first'', prerequisites = [],
               parts = [\<lparr>category = ''Engine'', name = ''E1'', tech_node = Some ''A'',
                         size_field = ''Small''\<rparr>]\<rparr>),
      (''B'', \<lparr>tier = 1, description = ''second'', prerequisites = [''A''], parts = []\<rparr>)]
     [\<lparr>category = ''Fuel'', name = ''F1'', tech_node = None, size_field = []\<rparr>] =
   Inl (NameError ''size_str'')"
  by (simp add: create_tech_tree_graph_def unassigned_cluster_def group_by_category_def
      group_step_def dict_contains_def dict_get_def unassigned_part_label_def)

section \<open>Properties of the readers\<close>

text \<open>The equations that evaluate \<open>strip\<close> on a given text.\<close>

lemmas strip_eval = strip_def lstrip_def rstrip_def py_whitespace_def strip_leading.simps

subsection \<open>Choosing the reader\<close>

text \<open>
  What lines 34 to 45 and 71 to 81 do with a \<^verbatim>\<open>data_source\<close>: if it starts with \<^verbatim>\<open>http://\<close>
  or \<^verbatim>\<open>https://\<close> it is fetched and the fetched text is parsed (a failed fetch is the
  failure of the reader); else if a file of that name opens, the contents of the file are
  parsed; else, if the failure of \<^verbatim>\<open>open\<close> is \<^verbatim>\<open>FileNotFoundError\<close>, the string itself is
  parsed as tab-delimited text.
\<close>

lemma reader_resolution:
  "(startswith data_source ''http://'' \<or> startswith data_source ''https://'' \<longrightarrow>
      read_tech_tree E data_source =
        (case fetch_tsv_from_url E data_source of
           Inl e \<Rightarrow> Inl e | Inr fetched \<Rightarrow> tech_rows E (dict_reader E fetched) []) \<and>
      read_parts_catalog E data_source =
        (case fetch_tsv_from_url E data_source of
           Inl e \<Rightarrow> Inl e | Inr fetched \<Rightarrow> parts_rows (dict_reader E fetched) [])) \<and>
   (\<not> startswith data_source ''http://'' \<and> \<not> startswith data_source ''https://'' \<longrightarrow>
      (\<forall>contents. open_read E data_source = Inr contents \<longrightarrow>
         read_tech_tree E data_source = tech_rows E (dict_reader E contents) [] \<and>
         read_parts_catalog E data_source = parts_rows (dict_reader E contents) []) \<and>
      (open_read E data_source = Inl FileNotFoundError \<longrightarrow>
         read_tech_tree E data_source = tech_rows E (dict_reader E data_source) [] \<and>
         read_parts_catalog E data_source = parts_rows (dict_reader E data_source) []))"
  by (auto simp: read_tech_tree_def read_parts_catalog_def open_reader_def split: sum.splits)

lemma reader_resolution_example:
  "read_tech_tree (sheets tech_table parts_table) TECH_TREE_URL =
     tech_rows (sheets tech_table parts_table) (plain_reader (tsv tech_table)) [] \<and>
   read_tech_tree (instance_env [] [(''tech.tsv'', tsv tech_table)]) ''tech.tsv'' =
     tech_rows (instance_env [] [(''tech.tsv'', tsv tech_table)])
       (plain_reader (tsv tech_table)) [] \<and>
   read_tech_tree (instance_env [] []) (tsv tech_table) =
     tech_rows (instance_env [] []) (plain_reader (tsv tech_table)) []"
proof (intro conjI)
  have "startswith TECH_TREE_URL ''https://''"
    by (simp add: startswith_def TECH_TREE_URL_def BASE_URL_def)
  with reader_resolution [of TECH_TREE_URL "sheets tech_table parts_table"]
  show "read_tech_tree (sheets tech_table parts_table) TECH_TREE_URL =
     tech_rows (sheets tech_table parts_table) (plain_reader (tsv tech_table)) []"
    by (simp add: fetch_tsv_from_url_def sheets_def instance_env_def)
next
  have "\<not> startswith ''tech.tsv'' ''http://'' \<and> \<not> startswith ''tech.tsv'' ''https://''"
    by (simp add: startswith_def)
  moreover have "posix_open [(''tech.tsv'', tsv tech_table)] ''tech.tsv'' = Inr (tsv tech_table)"
    by (simp add: posix_open_def)
  ultimately
  show "read_tech_tree (instance_env [] [(''tech.tsv'', tsv tech_table)]) ''tech.tsv'' =
     tech_rows (instance_env [] [(''tech.tsv'', tsv tech_table)])
       (plain_reader (tsv tech_table)) []"
    using reader_resolution
      [of "''tech.tsv''" "instance_env [] [(''tech.tsv'', tsv tech_table)]"]
    by (simp add: instance_env_def)
next
  have "\<not> startswith (tsv tech_table) ''http://'' \<and>
        \<not> startswith (tsv tech_table) ''https://''"
    by (simp add: startswith_def tsv_def tech_table_def tech_header_def)
  moreover have "posix_open [] (tsv tech_table) = Inl FileNotFoundError"
    by (simp add: posix_open_def tsv_def tech_table_def tech_header_def)
  ultimately
  show "read_tech_tree (instance_env [] []) (tsv tech_table) =
     tech_rows (instance_env [] []) (plain_reader (tsv tech_table)) []"
    using reader_resolution [of "tsv tech_table" "instance_env [] []"]
    by (simp add: instance_env_def)
qed

text \<open>
  Every other failure of \<^verbatim>\<open>open\<close> is the failure of the reader: lines 43 and 80 catch
  \<^verbatim>\<open>FileNotFoundError\<close> and nothing else.
\<close>

lemma open_failure_propagates:
  assumes "\<not> startswith data_source ''http://''" and "\<not> startswith data_source ''https://''"
    and "open_read E data_source = Inl e" and "e \<noteq> FileNotFoundError"
  shows "read_tech_tree E data_source = Inl e \<and> read_parts_catalog E data_source = Inl e"
  using assms by (simp add: read_tech_tree_def read_parts_catalog_def open_reader_def)

lemma split_on_absent: "c \<notin> set s \<Longrightarrow> split_on c s = [s]"
  by (induction s) auto

text \<open>
  Claim C6: every \<^verbatim>\<open>data_source\<close> that has no scheme prefix and names no existing file is
  parsed as tab-delimited text itself. The comment of lines 39 and 76 says so (try to open
  as file, if that fails assume it is TSV data), and the docstrings offer a TSV data
  string as argument. The code does it only when \<^verbatim>\<open>open\<close> fails with
  \<^verbatim>\<open>FileNotFoundError\<close>. For the text of a table that is longer than 255 bytes and holds no
  slash, \<^verbatim>\<open>open\<close> fails with \<^verbatim>\<open>OSError\<close> (file name too long) instead: the text has no
  scheme prefix, no file has its name, and \<^verbatim>\<open>read_tech_tree\<close> raises that error and parses
  nothing.
\<close>

theorem inline_text_not_parsed:
  "\<not> startswith (tsv tech_table_long) ''http://'' \<and>
   \<not> startswith (tsv tech_table_long) ''https://'' \<and>
   read_tech_tree (instance_env [] []) (tsv tech_table_long) =
     Inl (OtherError ''OSError: [Errno 36] File name too long'')"
proof -
  have long: "tsv tech_table_long =
      ''Node'' @ [CHR 0x09] @ ''Tier'' @ [CHR 0x09] @ ''Description'' @ [CHR 0x09] @
      ''Prerequisites'' @ [CHR 0x0A] @ ''A'' @ [CHR 0x09] @ ''0'' @ [CHR 0x09] @
      replicate 300 CHR ''x'' @ [CHR 0x09]"
    by (simp add: tsv_def tech_table_long_def tech_header_def)
  have url: "\<not> startswith (tsv tech_table_long) ''http://''"
    "\<not> startswith (tsv tech_table_long) ''https://''"
    by (simp_all add: long startswith_def)
  have "CHR ''/'' \<notin> set (tsv tech_table_long)"
    by (simp add: long)
  then have "split_on CHR ''/'' (tsv tech_table_long) = [tsv tech_table_long]"
    by (rule split_on_absent)
  moreover have "255 < length (tsv tech_table_long)"
    by (simp add: long)
  ultimately have "open_read (instance_env [] []) (tsv tech_table_long) =
      Inl (OtherError ''OSError: [Errno 36] File name too long'')"
    by (simp add: instance_env_def posix_open_def)
  with url show ?thesis
    by (simp add: read_tech_tree_def open_reader_def)
qed

subsection \<open>The rows of the tech tree\<close>

text \<open>
  The comprehension of line 53 filters on the stripped piece and then strips; trimming
  every piece first and discarding the empty ones afterwards gives the same list.
\<close>

lemma parse_prerequisites_spec: "parse_prerequisites s = spec_prerequisites s"
  by (simp add: parse_prerequisites_def spec_prerequisites_def filter_map comp_def)

lemma tech_row_Inr:
  "tech_row E row = Inr (node_name, nd) \<longleftrightarrow>
   (\<exists>t ti d pr. row ''Node'' = Some node_name \<and> row ''Tier'' = Some t \<and> py_int E t = Some ti \<and>
      row ''Description'' = Some d \<and> row ''Prerequisites'' = Some pr \<and>
      nd = \<lparr>tier = ti, description = d, prerequisites = parse_prerequisites pr, parts = []\<rparr>)"
  by (auto simp: tech_row_def split: option.splits)

lemma tech_rows_bad_tier:
  assumes "\<forall>row\<in>set rows. row ''Node'' \<noteq> None \<and> row ''Tier'' \<noteq> None \<and>
             row ''Description'' \<noteq> None \<and> row ''Prerequisites'' \<noteq> None"
    and "\<exists>row\<in>set rows. py_int E (the (row ''Tier'')) = None"
  shows "\<exists>t. tech_rows E rows tn = Inl (ValueError t) \<and> py_int E t = None"
  using assms
proof (induction rows arbitrary: tn)
  case Nil
  then show ?case by simp
next
  case (Cons row rows)
  from Cons.prems(1) obtain n t d pr where cols: "row ''Node'' = Some n" "row ''Tier'' = Some t"
    "row ''Description'' = Some d" "row ''Prerequisites'' = Some pr"
    by auto
  show ?case
  proof (cases "py_int E t")
    case None
    with cols show ?thesis by (auto simp: tech_row_def)
  next
    case (Some ti)
    with cols Cons.prems(2) have "\<exists>row\<in>set rows. py_int E (the (row ''Tier'')) = None"
      by auto
    with Cons.IH Cons.prems(1) have "\<exists>t. tech_rows E rows tn' = Inl (ValueError t) \<and>
        py_int E t = None" for tn'
      by simp
    with cols Some show ?thesis by (simp add: tech_row_def)
  qed
qed

lemma main_aborts:
  "read_tech_tree E TECH_TREE_URL = Inl e \<Longrightarrow>
   main E = (\<lparr>stdout = [''Fetching tech tree from Google Sheets...''], written = []\<rparr>, Some e)"
  by (simp add: main_def print_line_def)

text \<open>
  Claim C5: \<^verbatim>\<open>read_tech_tree\<close> parses the \<^verbatim>\<open>Tier\<close> field of every row with \<^verbatim>\<open>int\<close>, so the
  tier of a node it accepts is the integer of that field; and when the table has its four
  columns and \<^verbatim>\<open>int\<close> rejects the \<^verbatim>\<open>Tier\<close> field of some row, \<^verbatim>\<open>read_tech_tree\<close> raises
  \<^verbatim>\<open>ValueError\<close> for a rejected field, and the run, which reads the tech tree first, ends
  with that error and has written no file (it has printed its first progress line).
\<close>

theorem bad_tier_aborts:
  assumes "open_reader E data_source = Inr rows"
    and "\<forall>row\<in>set rows. row ''Node'' \<noteq> None \<and> row ''Tier'' \<noteq> None \<and>
           row ''Description'' \<noteq> None \<and> row ''Prerequisites'' \<noteq> None"
    and "\<exists>row\<in>set rows. py_int E (the (row ''Tier'')) = None"
  shows "(\<exists>t. read_tech_tree E data_source = Inl (ValueError t) \<and> py_int E t = None \<and>
             (data_source = TECH_TREE_URL \<longrightarrow>
                snd (main E) = Some (ValueError t) \<and> written (fst (main E)) = [])) \<and>
         (\<forall>row node_name nd. tech_row E row = Inr (node_name, nd) \<longrightarrow>
             (\<exists>t. row ''Tier'' = Some t \<and> py_int E t = Some (tier nd)))"
proof
  from tech_rows_bad_tier [OF assms(2,3), of "[]"]
  obtain t where t: "tech_rows E rows [] = Inl (ValueError t)" "py_int E t = None"
    by blast
  with assms(1) have r: "read_tech_tree E data_source = Inl (ValueError t)"
    by (simp add: read_tech_tree_def)
  have "snd (main E) = Some (ValueError t) \<and> written (fst (main E)) = []"
    if "data_source = TECH_TREE_URL"
    using main_aborts [of E "ValueError t"] r that by simp
  with r t(2)
  show "\<exists>t. read_tech_tree E data_source = Inl (ValueError t) \<and> py_int E t = None \<and>
             (data_source = TECH_TREE_URL \<longrightarrow>
                snd (main E) = Some (ValueError t) \<and> written (fst (main E)) = [])"
    by blast
next
  show "\<forall>row node_name nd. tech_row E row = Inr (node_name, nd) \<longrightarrow>
             (\<exists>t. row ''Tier'' = Some t \<and> py_int E t = Some (tier nd))"
    by (auto simp: tech_row_Inr)
qed

theorem bad_tier_aborts_witness:
  "\<exists>t. read_tech_tree (sheets tech_table_bad_tier parts_table) TECH_TREE_URL =
          Inl (ValueError t) \<and>
        snd (main (sheets tech_table_bad_tier parts_table)) = Some (ValueError t) \<and>
        written (fst (main (sheets tech_table_bad_tier parts_table))) = []"
proof -
  let ?rows = "[row_of tech_header [''A'', ''0'', ''first'', [] ],
                row_of tech_header [''B'', ''abc'', ''second'', ''A'']]"
  have rows: "plain_reader (tsv tech_table_bad_tier) = ?rows"
    by (simp add: plain_reader_def tsv_def tech_table_bad_tier_def tech_header_def)
  have h1: "open_reader (sheets tech_table_bad_tier parts_table) TECH_TREE_URL = Inr ?rows"
    by (simp add: open_reader_def startswith_def TECH_TREE_URL_def BASE_URL_def
        fetch_tsv_from_url_def sheets_def instance_env_def rows)
  have h2: "\<forall>row\<in>set ?rows. row ''Node'' \<noteq> None \<and> row ''Tier'' \<noteq> None \<and>
      row ''Description'' \<noteq> None \<and> row ''Prerequisites'' \<noteq> None"
    by (simp add: row_of_def tech_header_def)
  have "ascii_int ''abc'' = None"
    by (simp add: ascii_int_def strip_eval decimal_def digit_val_def)
  then have h3: "\<exists>row\<in>set ?rows.
      py_int (sheets tech_table_bad_tier parts_table) (the (row ''Tier'')) = None"
    by (simp add: row_of_def tech_header_def sheets_def instance_env_def)
  from bad_tier_aborts [OF h1 h2 h3] show ?thesis by blast
qed

subsection \<open>Duplicate node names\<close>

lemma dict_get_set:
  "dict_get (dict_set k v d) k' = (if k' = k then Some v else dict_get d k')"
  by (induction d) (auto simp: dict_get_def)

lemma dict_set_keys: "set (map fst (dict_set k v d)) = insert k (set (map fst d))"
proof (induction d)
  case Nil
  then show ?case by simp
next
  case (Cons kv d)
  obtain k' v' where kv: "kv = (k', v')" by (cases kv)
  show ?case
  proof (cases "k' = k")
    case True
    then show ?thesis by (simp add: kv)
  next
    case False
    with Cons.IH show ?thesis by (simp add: kv insert_commute)
  qed
qed

lemma dict_set_is_dict: "is_dict d \<Longrightarrow> is_dict (dict_set k v d)"
proof (induction d)
  case Nil
  then show ?case by (simp add: is_dict_def)
next
  case (Cons kv d)
  obtain k' v' where kv: "kv = (k', v')" by (cases kv)
  from Cons.prems have "is_dict d" and "k' \<notin> set (map fst d)"
    by (simp_all add: is_dict_def kv)
  with Cons.IH have "is_dict (dict_set k v d)" by simp
  with \<open>k' \<notin> set (map fst d)\<close> Cons.prems show ?case
    by (auto simp: is_dict_def kv dict_set_keys simp del: set_map)
qed

lemma store_row_accepted: "tech_row E r = Inr (k, nd) \<Longrightarrow> store_row E r tn = dict_set k nd tn"
  by (simp add: store_row_def)

lemma tech_rows_accepts:
  "\<forall>r\<in>set rows. \<exists>kv. tech_row E r = Inr kv \<Longrightarrow>
   tech_rows E rows tn = Inr (fold (store_row E) rows tn)"
proof (induction rows arbitrary: tn)
  case Nil
  then show ?case by simp
next
  case (Cons row rows)
  from Cons.prems have "\<exists>kv. tech_row E row = Inr kv" by simp
  then obtain k nd where row: "tech_row E row = Inr (k, nd)"
    by (metis surj_pair)
  from Cons.prems have "\<forall>r\<in>set rows. \<exists>kv. tech_row E r = Inr kv" by simp
  from Cons.IH [OF this] show ?case
    by (simp add: row store_row_def)
qed

lemma store_row_is_dict: "is_dict tn \<Longrightarrow> is_dict (store_row E r tn)"
  by (simp add: store_row_def dict_set_is_dict split: sum.splits prod.splits)

lemma store_rows_is_dict: "is_dict tn \<Longrightarrow> is_dict (fold (store_row E) rows tn)"
  by (induction rows arbitrary: tn) (simp_all add: store_row_is_dict)

lemma store_row_other:
  "r ''Node'' \<noteq> Some k \<Longrightarrow> dict_get (store_row E r tn) k = dict_get tn k"
proof (cases "tech_row E r")
  case (Inl e)
  then show ?thesis by (simp add: store_row_def)
next
  case (Inr kv)
  assume other: "r ''Node'' \<noteq> Some k"
  obtain k' nd where kv: "kv = (k', nd)" by (cases kv)
  with Inr have "r ''Node'' = Some k'" by (simp add: tech_row_Inr)
  with other have "k \<noteq> k'" by auto
  with Inr kv show ?thesis by (simp add: store_row_def dict_get_set)
qed

lemma store_rows_other:
  "\<forall>r\<in>set rows. r ''Node'' \<noteq> Some k \<Longrightarrow>
   dict_get (fold (store_row E) rows tn) k = dict_get tn k"
  by (induction rows arbitrary: tn) (simp_all add: store_row_other)

text \<open>
  Claim C9: when the tech-tree table holds several rows with the same \<^verbatim>\<open>Node\<close> name, and
  every row is accepted on its own, \<^verbatim>\<open>read_tech_tree\<close> raises no error and returns a mapping
  that holds under that name the tier, description and prerequisites of the last such row,
  with an empty parts list.
\<close>

theorem duplicate_node_last_wins:
  assumes "open_reader E data_source = Inr (rows1 @ row # rows2)"
    and "\<forall>r\<in>set (rows1 @ row # rows2). \<exists>kv. tech_row E r = Inr kv"
    and "row ''Node'' = Some node_name"
    and "\<forall>r\<in>set rows2. r ''Node'' \<noteq> Some node_name"
  shows "\<exists>tn nd. read_tech_tree E data_source = Inr tn \<and> is_dict tn \<and>
           dict_get tn node_name = Some nd \<and>
           Some (tier nd) = py_int E (the (row ''Tier'')) \<and>
           description nd = the (row ''Description'') \<and>
           prerequisites nd = parse_prerequisites (the (row ''Prerequisites'')) \<and>
           parts nd = []"
proof -
  define tn where "tn = fold (store_row E) (rows1 @ row # rows2) []"
  from assms(2) have "\<exists>kv. tech_row E row = Inr kv" by simp
  then obtain k nd where row: "tech_row E row = Inr (k, nd)"
    by (metis surj_pair)
  with assms(3) have k: "k = node_name" by (simp add: tech_row_Inr)
  have fields: "Some (tier nd) = py_int E (the (row ''Tier''))"
    "description nd = the (row ''Description'')"
    "prerequisites nd = parse_prerequisites (the (row ''Prerequisites''))"
    "parts nd = []"
    using row by (auto simp: tech_row_Inr)
  have "read_tech_tree E data_source = Inr tn"
    by (simp add: read_tech_tree_def assms(1) tech_rows_accepts [OF assms(2)] tn_def)
  moreover have "is_dict tn"
    unfolding tn_def by (rule store_rows_is_dict) (simp add: is_dict_def)
  moreover have "dict_get tn node_name = Some nd"
  proof -
    have "tn = fold (store_row E) rows2 (dict_set k nd (fold (store_row E) rows1 []))"
      by (simp add: tn_def store_row_accepted [OF row])
    then show ?thesis
      by (simp add: store_rows_other [OF assms(4)] dict_get_set k)
  qed
  ultimately show ?thesis using fields by blast
qed

theorem duplicate_node_last_wins_witness:
  "\<exists>tn nd. read_tech_tree (sheets tech_table_twice parts_table) TECH_TREE_URL = Inr tn \<and>
       dict_get tn ''A'' = Some nd \<and> tier nd = 2 \<and> description nd = ''again'' \<and>
       prerequisites nd = [''B''] \<and> parts nd = []"
proof -
  define E where "E = sheets tech_table_twice parts_table"
  define rows1 where "rows1 = [row_of tech_header [''A'', ''0'', ''first'', [] ],
                               row_of tech_header [''B'', ''1'', ''second'', ''A'']]"
  define row where "row = row_of tech_header [''A'', ''2'', ''again'', ''B'']"
  have rows: "plain_reader (tsv tech_table_twice) = rows1 @ row # []"
    by (simp add: plain_reader_def tsv_def tech_table_twice_def tech_header_def rows1_def
        row_def)
  have h1: "open_reader E TECH_TREE_URL = Inr (rows1 @ row # [])"
    by (simp add: open_reader_def startswith_def TECH_TREE_URL_def BASE_URL_def
        fetch_tsv_from_url_def sheets_def instance_env_def rows E_def)
  have ints: "ascii_int ''0'' = Some 0" "ascii_int ''1'' = Some 1" "ascii_int ''2'' = Some 2"
    by (simp_all add: ascii_int_def strip_eval decimal_def digit_val_def)
  have h2: "\<forall>r\<in>set (rows1 @ row # []). \<exists>kv. tech_row E r = Inr kv"
    by (simp add: tech_row_def row_of_def tech_header_def sheets_def instance_env_def ints
        E_def rows1_def row_def)
  have h3: "row ''Node'' = Some ''A''"
    by (simp add: row_of_def tech_header_def row_def)
  have h4: "\<forall>r\<in>set []. r ''Node'' \<noteq> Some ''A''" by simp
  have pr: "parse_prerequisites ''B'' = [''B'']"
    by (simp add: parse_prerequisites_spec spec_prerequisites_def strip_eval)
  have tier: "py_int E (the (row ''Tier'')) = Some 2"
    by (simp add: row_of_def tech_header_def sheets_def instance_env_def ints E_def row_def)
  have descr: "the (row ''Description'') = ''again''"
    by (simp add: row_of_def tech_header_def row_def)
  have prereq: "parse_prerequisites (the (row ''Prerequisites'')) = [''B'']"
    by (simp add: row_of_def tech_header_def pr row_def)
  from duplicate_node_last_wins [OF h1 h2 h3 h4]
  have "\<exists>tn nd. read_tech_tree E TECH_TREE_URL = Inr tn \<and>
       dict_get tn ''A'' = Some nd \<and> tier nd = 2 \<and> description nd = ''again'' \<and>
       prerequisites nd = [''B''] \<and> parts nd = []"
    unfolding tier descr prereq by auto
  then show ?thesis by (simp add: E_def)
qed

lemma dict_set_no_parts:
  "no_parts_yet tn \<Longrightarrow> parts nd = [] \<Longrightarrow> no_parts_yet (dict_set k nd tn)"
  by (induction tn) (auto simp: no_parts_yet_def)

text \<open>
  What \<^verbatim>\<open>read_tech_tree\<close> returns is a dict whose nodes hold no parts: the mappings the
  amended claim C1 speaks of.
\<close>

lemma tech_rows_fresh:
  "tech_rows E rows tn = Inr tn' \<Longrightarrow> is_dict tn \<Longrightarrow> no_parts_yet tn \<Longrightarrow>
   is_dict tn' \<and> no_parts_yet tn'"
proof (induction rows arbitrary: tn)
  case Nil
  then show ?case by simp
next
  case (Cons row rows)
  from Cons.prems(1) obtain k nd where row: "tech_row E row = Inr (k, nd)"
    and rest: "tech_rows E rows (dict_set k nd tn) = Inr tn'"
    by (auto split: sum.splits)
  from row have "parts nd = []" by (auto simp: tech_row_Inr)
  with Cons.prems have "is_dict (dict_set k nd tn)" and "no_parts_yet (dict_set k nd tn)"
    by (simp_all add: dict_set_is_dict dict_set_no_parts)
  with Cons.IH [OF rest] show ?case by simp
qed

lemma read_tech_tree_fresh:
  "read_tech_tree E data_source = Inr tn \<Longrightarrow> is_dict tn \<and> no_parts_yet tn"
  by (auto simp: read_tech_tree_def is_dict_def no_parts_yet_def
      split: sum.splits dest!: tech_rows_fresh)

subsection \<open>The prerequisites of a row\<close>

text \<open>
  \<open>split_on\<close> is the inverse of joining with the separator, and leaves no separator in a
  piece.
\<close>

lemma join_Cons_piece: "join sep ((x # p) # ps) = x # join sep (p # ps)"
  by (cases ps) simp_all

lemma split_on_not_Nil: "split_on c s \<noteq> []"
  by (induction s) (auto split: list.splits)

lemma join_split_on: "join [c] (split_on c s) = s"
proof (induction s)
  case Nil
  then show ?case by simp
next
  case (Cons x s)
  obtain p ps where ps: "split_on c s = p # ps"
    using split_on_not_Nil [of c s] by (cases "split_on c s") auto
  with Cons show ?case by (auto simp: join_Cons_piece)
qed

lemma split_on_pieces: "p \<in> set (split_on c s) \<Longrightarrow> c \<notin> set p"
proof (induction s arbitrary: p)
  case Nil
  then show ?case by simp
next
  case (Cons x s)
  obtain q qs where qs: "split_on c s = q # qs"
    using split_on_not_Nil [of c s] by (cases "split_on c s") auto
  with Cons show ?case by (auto split: if_splits)
qed

lemma strip_leading_subset: "set (strip_leading ws s) \<subseteq> set s"
proof (induction ws s rule: strip_leading.induct)
  case (1 ws s)
  show ?case
  proof (cases "find (\<lambda>w. w \<noteq> [] \<and> prefix w s) ws")
    case None
    then show ?thesis by (subst strip_leading.simps) simp
  next
    case (Some w)
    from "1" [OF Some] have "set (strip_leading ws (drop (length w) s)) \<subseteq> set s"
      using set_drop_subset [of "length w" s] by blast
    with Some show ?thesis by (subst strip_leading.simps) simp
  qed
qed

lemma strip_subset: "set (strip s) \<subseteq> set s"
proof -
  have "set (rstrip t) \<subseteq> set t" for t
    using strip_leading_subset [of "map rev py_whitespace" "rev t"] by (simp add: rstrip_def)
  moreover have "set (lstrip s) \<subseteq> set s"
    by (simp add: lstrip_def strip_leading_subset)
  ultimately show ?thesis
    unfolding strip_def by blast
qed

lemma parse_prerequisites_pieces:
  assumes "p \<in> set (parse_prerequisites s)"
  shows "p \<noteq> [] \<and> CHR '','' \<notin> set p"
proof -
  from assms obtain q where q: "q \<in> set (split_on CHR '','' s)" and p: "p = strip q"
    and ne: "strip q \<noteq> []"
    by (auto simp: parse_prerequisites_def)
  from q have "CHR '','' \<notin> set q" by (rule split_on_pieces)
  with strip_subset [of q] p ne show ?thesis by auto
qed

text \<open>
  The entry a name has in the mapping after the loop is the one of the last row with that
  name, and every entry of the mapping was stored by a row.
\<close>

lemma store_rows_last:
  assumes "tech_row E row = Inr (k, nd)" and "\<forall>r\<in>set rows2. r ''Node'' \<noteq> Some k"
  shows "dict_get (fold (store_row E) (rows1 @ row # rows2) tn) k = Some nd"
  by (simp add: store_row_accepted [OF assms(1)] store_rows_other [OF assms(2)] dict_get_set)

lemma store_rows_origin:
  "dict_get (fold (store_row E) rows tn) k = Some nd \<Longrightarrow>
   dict_get tn k = Some nd \<or> (\<exists>r\<in>set rows. tech_row E r = Inr (k, nd))"
proof (induction rows arbitrary: tn)
  case Nil
  then show ?case by simp
next
  case (Cons row rows)
  from Cons.prems have "dict_get (fold (store_row E) rows (store_row E row tn)) k = Some nd"
    by simp
  from Cons.IH [OF this]
  have "dict_get (store_row E row tn) k = Some nd \<or> (\<exists>r\<in>set rows. tech_row E r = Inr (k, nd))" .
  then show ?case
  proof
    assume stored: "dict_get (store_row E row tn) k = Some nd"
    show ?thesis
    proof (cases "tech_row E row")
      case (Inl e)
      with stored show ?thesis by (simp add: store_row_def)
    next
      case (Inr kv)
      obtain k' nd' where kv: "kv = (k', nd')" by (cases kv)
      with Inr stored have "dict_get (dict_set k' nd' tn) k = Some nd"
        by (simp add: store_row_def)
      then have "(k = k' \<and> nd = nd') \<or> dict_get tn k = Some nd"
        by (auto simp: dict_get_set split: if_splits)
      with Inr kv show ?thesis by auto
    qed
  next
    assume "\<exists>r\<in>set rows. tech_row E r = Inr (k, nd)"
    then show ?thesis by auto
  qed
qed

text \<open>
  Claim C8: for every row of the tech-tree table, \<^verbatim>\<open>read_tech_tree\<close> computes the
  prerequisites list by splitting the \<^verbatim>\<open>Prerequisites\<close> field on commas, trimming each
  piece and discarding the pieces that are empty after trimming, the others kept in their
  order. On a table whose rows are all accepted, the mapping \<^verbatim>\<open>read_tech_tree\<close> returns
  holds, under the name of every row that is the last with its name, the list so computed
  from the field of that row; every entry of the mapping holds the list so computed from
  the field of a row with its name; and no stored piece is empty or holds a comma. The
  list is stated in the specification's wording, \<open>spec_prerequisites\<close>; the mapping is
  built by the comprehension of the source.
\<close>

theorem prerequisites_split_trim:
  assumes "open_reader E data_source = Inr rows"
    and "\<forall>r\<in>set rows. \<exists>kv. tech_row E r = Inr kv"
  shows "\<exists>tn. read_tech_tree E data_source = Inr tn \<and>
           (\<forall>i<length rows. \<forall>node_name pr.
              (rows ! i) ''Node'' = Some node_name \<and>
              (rows ! i) ''Prerequisites'' = Some pr \<and>
              (\<forall>j<length rows. i < j \<longrightarrow> (rows ! j) ''Node'' \<noteq> Some node_name) \<longrightarrow>
              (\<exists>nd. dict_get tn node_name = Some nd \<and>
                    prerequisites nd = spec_prerequisites pr)) \<and>
           (\<forall>node_name nd. dict_get tn node_name = Some nd \<longrightarrow>
              (\<exists>r\<in>set rows. \<exists>pr. r ''Node'' = Some node_name \<and>
                 r ''Prerequisites'' = Some pr \<and>
                 prerequisites nd = spec_prerequisites pr) \<and>
              (\<forall>p\<in>set (prerequisites nd). p \<noteq> [] \<and> CHR '','' \<notin> set p))"
proof -
  define tn where "tn = fold (store_row E) rows []"
  have ret: "read_tech_tree E data_source = Inr tn"
    by (simp add: read_tech_tree_def assms(1) tech_rows_accepts [OF assms(2)] tn_def)
  have last: "\<exists>nd. dict_get tn node_name = Some nd \<and> prerequisites nd = spec_prerequisites pr"
    if i: "i < length rows" and node: "(rows ! i) ''Node'' = Some node_name"
      and pr: "(rows ! i) ''Prerequisites'' = Some pr"
      and later: "\<forall>j<length rows. i < j \<longrightarrow> (rows ! j) ''Node'' \<noteq> Some node_name"
    for i node_name pr
  proof -
    from i have "rows ! i \<in> set rows" by simp
    with assms(2) have "\<exists>kv. tech_row E (rows ! i) = Inr kv" by simp
    then obtain k nd where row: "tech_row E (rows ! i) = Inr (k, nd)"
      by (metis surj_pair)
    with node pr have k: "k = node_name"
      and list: "prerequisites nd = parse_prerequisites pr"
      by (auto simp: tech_row_Inr)
    have rest: "\<forall>r\<in>set (drop (Suc i) rows). r ''Node'' \<noteq> Some k"
    proof
      fix r
      assume "r \<in> set (drop (Suc i) rows)"
      then obtain n where n: "n < length (drop (Suc i) rows)" and r: "r = drop (Suc i) rows ! n"
        by (auto simp: in_set_conv_nth)
      from n have "Suc i + n < length rows" by simp
      moreover from n have "r = rows ! (Suc i + n)" by (simp add: r)
      ultimately show "r ''Node'' \<noteq> Some k"
        using later k by simp
    qed
    from i have "rows = take i rows @ rows ! i # drop (Suc i) rows"
      by (rule id_take_nth_drop)
    then have "tn = fold (store_row E) (take i rows @ rows ! i # drop (Suc i) rows) []"
      by (simp add: tn_def)
    then have "dict_get tn k = Some nd"
      by (simp only: store_rows_last [OF row rest])
    with k list show ?thesis by (simp add: parse_prerequisites_spec)
  qed
  have stored: "(\<exists>r\<in>set rows. \<exists>pr. r ''Node'' = Some node_name \<and>
         r ''Prerequisites'' = Some pr \<and> prerequisites nd = spec_prerequisites pr) \<and>
       (\<forall>p\<in>set (prerequisites nd). p \<noteq> [] \<and> CHR '','' \<notin> set p)"
    if "dict_get tn node_name = Some nd" for node_name nd
  proof -
    from that store_rows_origin [of E rows "[]" node_name nd]
    obtain r where r: "r \<in> set rows" and row: "tech_row E r = Inr (node_name, nd)"
      by (auto simp: tn_def dict_get_def)
    from row obtain pr where "r ''Node'' = Some node_name" and "r ''Prerequisites'' = Some pr"
      and list: "prerequisites nd = parse_prerequisites pr"
      by (auto simp: tech_row_Inr)
    moreover from list have "\<forall>p\<in>set (prerequisites nd). p \<noteq> [] \<and> CHR '','' \<notin> set p"
      using parse_prerequisites_pieces by simp
    ultimately show ?thesis
      using r by (auto simp: parse_prerequisites_spec)
  qed
  from ret last stored show ?thesis by blast
qed

theorem prerequisites_split_trim_witness:
  "\<exists>tn nd. read_tech_tree (sheets tech_table_spaced parts_table) TECH_TREE_URL = Inr tn \<and>
      dict_get tn ''B'' = Some nd \<and> prerequisites nd = [''A'', ''Z'']"
proof -
  define E where "E = sheets tech_table_spaced parts_table"
  define rows where "rows = [row_of tech_header [''A'', ''0'', ''first'', [] ],
                             row_of tech_header [''B'', ''1'', ''second'', '' A, ,Z ,'']]"
  have read: "plain_reader (tsv tech_table_spaced) = rows"
    by (simp add: plain_reader_def tsv_def tech_table_spaced_def tech_header_def rows_def)
  have h1: "open_reader E TECH_TREE_URL = Inr rows"
    by (simp add: open_reader_def startswith_def TECH_TREE_URL_def BASE_URL_def
        fetch_tsv_from_url_def sheets_def instance_env_def read E_def)
  have ints: "ascii_int ''0'' = Some 0" "ascii_int ''1'' = Some 1"
    by (simp_all add: ascii_int_def strip_eval decimal_def digit_val_def)
  have h2: "\<forall>r\<in>set rows. \<exists>kv. tech_row E r = Inr kv"
    by (simp add: tech_row_def row_of_def tech_header_def sheets_def instance_env_def ints
        E_def rows_def)
  have len: "length rows = 2" by (simp add: rows_def)
  have node: "(rows ! 1) ''Node'' = Some ''B''"
    and field: "(rows ! 1) ''Prerequisites'' = Some '' A, ,Z ,''"
    by (simp_all add: rows_def row_of_def tech_header_def)
  have later: "\<forall>j<length rows. 1 < j \<longrightarrow> (rows ! j) ''Node'' \<noteq> Some ''B''"
    by (simp add: len)
  have list: "spec_prerequisites '' A, ,Z ,'' = [''A'', ''Z'']"
    by (simp add: spec_prerequisites_def strip_eval)
  from prerequisites_split_trim [OF h1 h2]
  obtain tn where ret: "read_tech_tree E TECH_TREE_URL = Inr tn"
    and last: "\<And>i node_name pr. i < length rows \<Longrightarrow> (rows ! i) ''Node'' = Some node_name \<Longrightarrow>
        (rows ! i) ''Prerequisites'' = Some pr \<Longrightarrow>
        \<forall>j<length rows. i < j \<longrightarrow> (rows ! j) ''Node'' \<noteq> Some node_name \<Longrightarrow>
        \<exists>nd. dict_get tn node_name = Some nd \<and> prerequisites nd = spec_prerequisites pr"
    by blast
  from last [of 1, OF _ node field later] len
  have "\<exists>nd. dict_get tn ''B'' = Some nd \<and> prerequisites nd = [''A'', ''Z'']"
    by (simp add: list)
  with ret show ?thesis by (auto simp: E_def)
qed

subsection \<open>The \<^verbatim>\<open>Tech Node\<close> field of a part\<close>

lemma strip_leading_Nil: "strip_leading ws [] = []"
proof -
  have "find (\<lambda>w. w \<noteq> [] \<and> prefix w []) ws = None"
    by (auto simp: find_None_iff)
  then show ?thesis by (subst strip_leading.simps) simp
qed

lemma strip_Nil: "strip [] = []"
  by (simp add: strip_def lstrip_def rstrip_def strip_leading_Nil)

lemma parts_rows_accepts:
  "\<forall>r\<in>set rows. \<exists>p. parts_row r = Inr p \<Longrightarrow>
   parts_rows rows ps = Inr (ps @ map (\<lambda>r. projr (parts_row r)) rows)"
proof (induction rows arbitrary: ps)
  case Nil
  then show ?case by simp
next
  case (Cons row rows)
  from Cons.prems obtain p where p: "parts_row row = Inr p" by auto
  from Cons.prems have "\<forall>r\<in>set rows. \<exists>p. parts_row r = Inr p" by simp
  from Cons.IH [OF this] show ?case by (simp add: p)
qed

lemma assign_loop_unassigned:
  "map fst tn' = map fst tn \<Longrightarrow>
   snd (foldl assign_step (tn', un) ps) = un @ filter (\<lambda>p. routed tn p = None) ps"
proof (induction ps arbitrary: tn' un)
  case Nil
  then show ?case by simp
next
  case (Cons p ps)
  have same: "dict_contains k tn' = dict_contains k tn" for k
    by (simp add: dict_contains_def Cons.prems)
  show ?case
  proof (cases "truthy (tech_node p) \<and> dict_contains (the (tech_node p)) tn")
    case True
    then have r: "routed tn p \<noteq> None"
      by (auto simp: routed_def truthy_def split: option.splits)
    from True have step: "assign_step (tn', un) p =
        (dict_modify (the (tech_node p)) (append_part p) tn', un)"
      by (simp add: assign_step_def same)
    have "map fst (dict_modify (the (tech_node p)) (append_part p) tn') = map fst tn"
      by (simp add: dict_modify_keys Cons.prems)
    from Cons.IH [OF this] r show ?thesis
      by (simp add: step)
  next
    case False
    then have r: "routed tn p = None" by (auto simp: routed_def)
    from False have step: "assign_step (tn', un) p = (tn', un @ [p])"
      by (simp add: assign_step_def same)
    from Cons.IH [OF Cons.prems] r show ?thesis
      by (simp add: step)
  qed
qed

lemma assign_unassigned:
  "snd (assign_parts_to_nodes tn ps) = filter (\<lambda>p. routed tn p = None) ps"
  by (simp add: assign_parts_to_nodes_def assign_loop_unassigned)

text \<open>
  Claim C7, as the specification states it: a \<^verbatim>\<open>Tech Node\<close> field that trims to empty is
  stored as the absent value. Line 89 tests the field before it strips it, so a field of
  one blank passes the test and is stored as the empty string, which is present.
\<close>

theorem tech_node_field_counterexample:
  "strip '' '' = [] \<and>
   read_parts_catalog (sheets tech_table parts_table_blank) PARTS_LIST_URL =
   Inr [\<lparr>category = ''Engine'', name = ''E1'', tech_node = Some ''A'', size_field = ''Small''\<rparr>,
        \<lparr>category = ''Fuel'', name = ''F1'', tech_node = Some [], size_field = []\<rparr>]"
proof
  show "strip '' '' = []"
    by (simp add: strip_eval)
  have "open_reader (sheets tech_table parts_table_blank) PARTS_LIST_URL =
        Inr (plain_reader (tsv parts_table_blank))"
    by (simp add: open_reader_def startswith_def PARTS_LIST_URL_def TECH_TREE_URL_def
        BASE_URL_def fetch_tsv_from_url_def sheets_def instance_env_def)
  moreover have "parts_rows (plain_reader (tsv parts_table_blank)) [] =
    Inr [\<lparr>category = ''Engine'', name = ''E1'', tech_node = Some ''A'', size_field = ''Small''\<rparr>,
         \<lparr>category = ''Fuel'', name = ''F1'', tech_node = Some [], size_field = []\<rparr>]"
    by (simp add: plain_reader_def tsv_def parts_table_blank_def parts_header_def row_of_def
        parts_row_def strip_eval)
  ultimately show "read_parts_catalog (sheets tech_table parts_table_blank) PARTS_LIST_URL =
   Inr [\<lparr>category = ''Engine'', name = ''E1'', tech_node = Some ''A'', size_field = ''Small''\<rparr>,
        \<lparr>category = ''Fuel'', name = ''F1'', tech_node = Some [], size_field = []\<rparr>]"
    by (simp add: read_parts_catalog_def)
qed

text \<open>
  Claim C7, amended: for every row of the parts table, \<^verbatim>\<open>read_parts_catalog\<close> stores a
  \<^verbatim>\<open>Tech Node\<close> field that is not empty trimmed of surrounding whitespace, and an empty
  field as the absent value; a field that is not empty but trims to empty is stored as the
  empty string. In both cases where the field is empty or trims to empty, the part is
  routed to the unassigned list, whatever the mapping.
\<close>

theorem tech_node_field:
  assumes "open_reader E data_source = Inr rows"
    and "\<forall>row\<in>set rows. row ''Category'' \<noteq> None \<and> row ''Name'' \<noteq> None \<and>
           row ''Tech Node'' \<noteq> None \<and> row ''Size'' \<noteq> None"
  shows "\<exists>ps. read_parts_catalog E data_source = Inr ps \<and> length ps = length rows \<and>
           (\<forall>i<length rows. \<forall>t. (rows ! i) ''Tech Node'' = Some t \<longrightarrow>
              tech_node (ps ! i) = (if t = [] then None else Some (strip t)) \<and>
              (strip t = [] \<longrightarrow> (\<forall>tn. ps ! i \<in> set (snd (assign_parts_to_nodes tn ps)))))"
proof -
  define ps where "ps = map (\<lambda>r. projr (parts_row r)) rows"
  have ok: "\<exists>p. parts_row r = Inr p" if "r \<in> set rows" for r
    using assms(2) that by (auto simp: parts_row_def)
  then have "parts_rows rows [] = Inr ps"
    by (simp add: parts_rows_accepts ps_def)
  with assms(1) have r: "read_parts_catalog E data_source = Inr ps"
    by (simp add: read_parts_catalog_def)
  have "tech_node (ps ! i) = (if t = [] then None else Some (strip t)) \<and>
        (strip t = [] \<longrightarrow> (\<forall>tn. ps ! i \<in> set (snd (assign_parts_to_nodes tn ps))))"
    if i: "i < length rows" and t: "(rows ! i) ''Tech Node'' = Some t" for i t
  proof -
    from i have "rows ! i \<in> set rows" by simp
    with assms(2) obtain c n sz where "(rows ! i) ''Category'' = Some c"
      "(rows ! i) ''Name'' = Some n" "(rows ! i) ''Size'' = Some sz"
      by auto
    with t i have field: "tech_node (ps ! i) = (if t = [] then None else Some (strip t))"
      by (simp add: ps_def parts_row_def)
    have "ps ! i \<in> set (snd (assign_parts_to_nodes tn ps))" if "strip t = []" for tn
    proof -
      from field that have "\<not> truthy (tech_node (ps ! i))"
        by (simp add: truthy_def)
      then have "routed tn (ps ! i) = None" by (simp add: routed_def)
      moreover from i have "ps ! i \<in> set ps" by (simp add: ps_def)
      ultimately show ?thesis by (simp add: assign_unassigned)
    qed
    with field show ?thesis by blast
  qed
  with r show ?thesis by (auto simp: ps_def)
qed

theorem tech_node_field_witness:
  "\<exists>ps. read_parts_catalog (sheets tech_table parts_table_blank) PARTS_LIST_URL = Inr ps \<and>
        tech_node (ps ! 0) = Some ''A'' \<and> tech_node (ps ! 1) = Some [] \<and>
        ps ! 1 \<in> set (snd (assign_parts_to_nodes [] ps))"
proof -
  let ?rows = "[row_of parts_header [''Engine'', ''E1'', '' A '', ''Small''],
                row_of parts_header [''Fuel'', ''F1'', '' '', [] ]]"
  have rows: "plain_reader (tsv parts_table_blank) = ?rows"
    by (simp add: plain_reader_def tsv_def parts_table_blank_def parts_header_def)
  have h1: "open_reader (sheets tech_table parts_table_blank) PARTS_LIST_URL = Inr ?rows"
    by (simp add: open_reader_def startswith_def PARTS_LIST_URL_def TECH_TREE_URL_def
        BASE_URL_def fetch_tsv_from_url_def sheets_def instance_env_def rows)
  have h2: "\<forall>row\<in>set ?rows. row ''Category'' \<noteq> None \<and> row ''Name'' \<noteq> None \<and>
           row ''Tech Node'' \<noteq> None \<and> row ''Size'' \<noteq> None"
    by (simp add: row_of_def parts_header_def)
  from tech_node_field [OF h1 h2]
  obtain ps where ps: "read_parts_catalog (sheets tech_table parts_table_blank) PARTS_LIST_URL =
      Inr ps"
    and each: "\<And>i t. i < length ?rows \<Longrightarrow> (?rows ! i) ''Tech Node'' = Some t \<Longrightarrow>
        tech_node (ps ! i) = (if t = [] then None else Some (strip t)) \<and>
        (strip t = [] \<longrightarrow> (\<forall>tn. ps ! i \<in> set (snd (assign_parts_to_nodes tn ps))))"
    by blast
  have s0: "strip '' A '' = ''A''" and s1: "strip '' '' = []"
    by (simp_all add: strip_eval)
  from each [of 0 "'' A ''"] have "tech_node (ps ! 0) = Some ''A''"
    by (simp add: row_of_def parts_header_def s0)
  moreover from each [of 1 "'' ''"]
  have "tech_node (ps ! 1) = Some [] \<and> ps ! 1 \<in> set (snd (assign_parts_to_nodes [] ps))"
    by (simp add: row_of_def parts_header_def s1)
  ultimately show ?thesis using ps by blast
qed

end
